theory Spec2Isabelle
  imports Complex_Main
begin

section \<open>Blockchain simulation: a shallow embedding of the engine\<close>

text \<open>
  The Python sources are translated function by function. A Python \<open>float\<close> is read as
  a \<open>real\<close> (rounding is left out), an \<open>int\<close> as an \<open>int\<close>, a \<open>str\<close> as a
  \<open>string\<close>, a \<open>dict\<close> as a map and a \<open>set\<close> as a set. Objects that the code
  mutates in place are returned updated. Locks are left out: every function is read as
  one atomic step. Exceptions are values of \<open>py_error\<close>.
\<close>

datatype py_error = ZeroDivisionError | StatisticsError

subsection \<open>models.py: Wallet\<close>

record wallet =
  wallet_id :: string
  balance :: real
  transactions_sent :: int
  transactions_received :: int
  total_sent :: real
  total_received :: real
  total_fees :: real

text \<open>\<open>Wallet.add_balance\<close>: three in-place additions.\<close>

definition add_balance :: "wallet \<Rightarrow> real \<Rightarrow> wallet" where
  "add_balance w amount =
     w\<lparr>balance := balance w + amount,
       total_received := total_received w + amount,
       transactions_received := transactions_received w + 1\<rparr>"

text \<open>
  \<open>Wallet.subtract_balance(amount, fee)\<close>: the returned pair is the method's return
  value and the wallet after the call.
\<close>

definition subtract_balance :: "wallet \<Rightarrow> real \<Rightarrow> real \<Rightarrow> bool \<times> wallet" where
  "subtract_balance w amount fee =
     (let total_deduction = amount + fee in
      if balance w \<ge> total_deduction
      then (True, w\<lparr>balance := balance w - total_deduction,
                     total_sent := total_sent w + amount,
                     total_fees := total_fees w + fee,
                     transactions_sent := transactions_sent w + 1\<rparr>)
      else (False, w))"

subsection \<open>models.py: Transaction\<close>

text \<open>
  The \<open>hash\<close> attribute is a SHA-256 digest computed once by \<open>__post_init__\<close>; it is
  carried as a field.
\<close>

record transaction =
  tx_id :: string
  sender :: string
  recipient :: string
  amount :: real
  fee :: real
  tx_timestamp :: real
  status :: string
  priority :: string
  network_congestion :: real
  tx_hash :: string

subsection \<open>wallet.py: WalletManager, the wallet map\<close>

type_synonym wallets = "string \<rightharpoonup> wallet"

text \<open>
  \<open>WalletManager.process_confirmed_transaction\<close>: credit the recipient when it is a key
  of the wallet map, then mark the transaction confirmed. Both the map and the
  transaction object are mutated, so both are returned.
\<close>

definition process_confirmed_transaction ::
    "wallets \<Rightarrow> transaction \<Rightarrow> wallets \<times> transaction" where
  "process_confirmed_transaction ws t =
     (let ws' = (case ws (recipient t) of
                   Some w \<Rightarrow> ws(recipient t \<mapsto> add_balance w (amount t))
                 | None \<Rightarrow> ws)
      in (ws', t\<lparr>status := ''confirmed''\<rparr>))"

subsection \<open>wallet.py: FeeCalculator\<close>

text \<open>The three entries of \<open>TRANSACTION_CONFIG\<close> (config.py) that the calculator reads.\<close>

definition TRANSACTION_CONFIG_min_fee :: real where
  "TRANSACTION_CONFIG_min_fee = 0.001"

definition TRANSACTION_CONFIG_max_fee :: real where
  "TRANSACTION_CONFIG_max_fee = 0.1"

definition TRANSACTION_CONFIG_fee_rate :: real where
  "TRANSACTION_CONFIG_fee_rate = 0.01"

record fee_calculator =
  base_fee_rate :: real
  min_fee :: real
  max_fee :: real
  congestion_multiplier :: real
  block_utilization :: real

text \<open>\<open>FeeCalculator.__init__\<close>.\<close>

definition FeeCalculator_init :: fee_calculator where
  "FeeCalculator_init =
     \<lparr>base_fee_rate = TRANSACTION_CONFIG_fee_rate,
      min_fee = TRANSACTION_CONFIG_min_fee,
      max_fee = TRANSACTION_CONFIG_max_fee,
      congestion_multiplier = 1,
      block_utilization = 0.5\<rparr>"

text \<open>The dictionary literal of \<open>calculate_fee\<close> and its lookup \<open>.get(priority, 1.0)\<close>.\<close>

definition priority_multipliers :: "string \<rightharpoonup> real" where
  "priority_multipliers =
     [''low'' \<mapsto> 0.5, ''normal'' \<mapsto> 1, ''high'' \<mapsto> 2, ''urgent'' \<mapsto> 5]"

definition priority_mult :: "string \<Rightarrow> real" where
  "priority_mult p = (case priority_multipliers p of Some m \<Rightarrow> m | None \<Rightarrow> 1)"

definition calculate_fee :: "fee_calculator \<Rightarrow> real \<Rightarrow> string \<Rightarrow> real \<Rightarrow> real" where
  "calculate_fee fc amt prio congestion =
     (let base_fee = amt * base_fee_rate fc;
          congestion_mult = 1 + congestion * 2;
          utilization_factor = 1 + block_utilization fc * 0.5;
          fee0 = base_fee * priority_mult prio * congestion_mult * utilization_factor
      in max (min_fee fc) (min fee0 (max_fee fc)))"

text \<open>\<open>FeeCalculator.update_network_conditions\<close>.\<close>

definition fc_update_network_conditions ::
    "fee_calculator \<Rightarrow> real \<Rightarrow> real \<Rightarrow> fee_calculator" where
  "fc_update_network_conditions fc congestion util =
     fc\<lparr>congestion_multiplier := 1 + congestion,
        block_utilization := max 0 (min 1 util)\<rparr>"

text \<open>
  The clamp of the specification's fee formula, written from the specification's words:
  a value below the lower bound becomes the lower bound, one above the upper bound the
  upper bound.
\<close>

definition clamp :: "real \<Rightarrow> real \<Rightarrow> real \<Rightarrow> real" where
  "clamp x lo hi = (if x < lo then lo else if hi < x then hi else x)"

subsection \<open>config.py: SimulationConfig and the constants\<close>

definition DIFFICULTY_ADJUSTMENT_BLOCKS :: nat where
  "DIFFICULTY_ADJUSTMENT_BLOCKS = 2016"

text \<open>
  \<open>halving\<close> and \<open>blocks\<close> may be \<open>None\<close>; \<open>difficulty\<close> is always a number
  (\<open>from_args\<close> replaces a missing one by \<open>blocktime * miners * hashrate\<close>).
\<close>

record config =
  c_nodes :: int
  c_neighbors :: int
  c_miners :: int
  c_hashrate :: real
  c_blocktime :: real
  c_difficulty :: real
  c_reward :: real
  c_halving :: "int option"
  c_wallets :: int
  c_transactions :: int
  c_interval :: real
  c_blocksize :: int
  c_blocks :: "int option"
  c_years :: real
  c_print_interval :: int
  c_debug :: bool

subsection \<open>models.py: Block, MiningStats, NetworkStats\<close>

text \<open>
  \<open>hash\<close> is the digest stored by \<open>__post_init__\<close>; \<open>transaction_objects\<close> is the
  attribute that \<open>Miner._create_block\<close> attaches.
\<close>

record block =
  block_id :: string
  timestamp :: real
  time_since_last :: real
  transaction_count :: int
  size_bytes :: int
  transactions :: "string list"
  miner_reward :: real
  previous_hash :: string
  miner_id :: string
  difficulty :: real
  hash :: string
  transaction_objects :: "transaction list"

text \<open>
  The two block counters start at 0 and are only ever incremented, so they are natural
  numbers; the divisions by them in the running means are then never by zero.
\<close>

record mining_stats =
  ms_total_blocks_mined :: nat
  ms_total_mining_time :: real
  ms_average_mining_time :: real
  ms_current_difficulty :: real
  ms_total_hashrate :: real
  ms_blocks_per_miner :: "string \<rightharpoonup> int"

definition update_mining_stats ::
    "mining_stats \<Rightarrow> string \<Rightarrow> real \<Rightarrow> real \<Rightarrow> mining_stats" where
  "update_mining_stats st mid mining_time d =
     (let n = ms_total_blocks_mined st + 1;
          t = ms_total_mining_time st + mining_time;
          old = (case ms_blocks_per_miner st mid of None \<Rightarrow> 0 | Some k \<Rightarrow> k)
      in st\<lparr>ms_total_blocks_mined := n,
            ms_total_mining_time := t,
            ms_current_difficulty := d,
            ms_blocks_per_miner := (ms_blocks_per_miner st)(mid \<mapsto> old + 1),
            ms_average_mining_time := t / real n\<rparr>)"

record network_stats =
  total_blocks_propagated :: nat
  total_transactions_propagated :: int
  total_network_data :: int
  total_io_requests :: int
  average_propagation_time :: real
  network_latency :: real
  packet_loss_rate :: real

definition update_propagation_stats ::
    "network_stats \<Rightarrow> int \<Rightarrow> real \<Rightarrow> network_stats" where
  "update_propagation_stats st block_size propagation_time =
     (let n = total_blocks_propagated st + 1
      in st\<lparr>total_blocks_propagated := n,
            total_network_data := total_network_data st + block_size,
            total_io_requests := total_io_requests st + 1,
            average_propagation_time :=
              (if n = 1 then propagation_time
               else (average_propagation_time st * real (n - 1) + propagation_time)
                      / real n)\<rparr>)"

subsection \<open>network.py: BlockchainNode and NetworkManager\<close>

text \<open>
  The nodes live in the manager's list; a reference to a node (an entry of
  \<open>neighbors\<close>, the receiver of a method) is its index in that list. All nodes share
  the manager's one \<open>NetworkStats\<close> object, which is therefore a field of the network.
  The random latency, bandwidth and loss figures of a node are never read by the
  functions below and are left out.
\<close>

record node =
  node_id :: string
  stored_blocks :: "string set"
  neighbors :: "nat list"
  unconfirmed_transactions :: "transaction list"

record network =
  nodes :: "node list"
  the_network_stats :: network_stats

text \<open>
  \<open>BlockchainNode._broadcast_block\<close>: one statistics update per neighbour, with the
  fixed delay 0.1. The loop body does nothing else; in particular it calls no method
  of the neighbour.
\<close>

primrec broadcast_loop :: "nat list \<Rightarrow> block \<Rightarrow> network_stats \<Rightarrow> network_stats" where
  "broadcast_loop [] b st = st"
| "broadcast_loop (neighbor # rest) b st =
     broadcast_loop rest b (update_propagation_stats st (size_bytes b) 0.1)"

definition node_broadcast_block :: "network \<Rightarrow> nat \<Rightarrow> block \<Rightarrow> network" where
  "node_broadcast_block net i b =
     net\<lparr>the_network_stats :=
           broadcast_loop (neighbors (nodes net ! i)) b (the_network_stats net)\<rparr>"

text \<open>\<open>BlockchainNode.store_block\<close>, called on the node at index \<open>i\<close>.\<close>

definition store_block :: "network \<Rightarrow> nat \<Rightarrow> block \<Rightarrow> bool \<times> network" where
  "store_block net i b =
     (if block_id b \<notin> stored_blocks (nodes net ! i)
      then (True,
            node_broadcast_block
              (net\<lparr>nodes := (nodes net)
                     [i := (nodes net ! i)
                        \<lparr>stored_blocks := insert (block_id b) (stored_blocks (nodes net ! i))\<rparr>]\<rparr>)
              i b)
      else (False, net))"

text \<open>
  \<open>BlockchainNode._receive_block\<close>: the method that would store a forwarded block and
  carry the flood on. Nothing in the repository calls it.
\<close>

definition receive_block :: "network \<Rightarrow> nat \<Rightarrow> block \<Rightarrow> network" where
  "receive_block net i b =
     (if block_id b \<notin> stored_blocks (nodes net ! i)
      then node_broadcast_block
             (net\<lparr>nodes := (nodes net)
                    [i := (nodes net ! i)
                       \<lparr>stored_blocks := insert (block_id b) (stored_blocks (nodes net ! i))\<rparr>]\<rparr>)
             i b
      else net)"

text \<open>
  \<open>NetworkManager.broadcast_block\<close>. The draw of \<open>random.choice(self.nodes)\<close> is the
  argument \<open>r\<close>: the origin is the node at index \<open>r mod len(nodes)\<close>.
\<close>

definition broadcast_block :: "network \<Rightarrow> nat \<Rightarrow> block \<Rightarrow> network" where
  "broadcast_block net r b =
     (if nodes net \<noteq> []
      then snd (store_block net (r mod length (nodes net)) b)
      else net)"

text \<open>
  The nodes that a flood from \<open>i\<close> along the neighbour lists would reach, in at most
  \<open>k\<close> hops.
\<close>

primrec reach :: "network \<Rightarrow> nat \<Rightarrow> nat \<Rightarrow> nat set" where
  "reach net 0 i = {i}"
| "reach net (Suc k) i =
     insert i (\<Union> ((reach net k) ` set (neighbors (nodes net ! i))))"

subsection \<open>mining.py: Miner and MiningManager\<close>

text \<open>
  A miner's \<open>actual_hashrate\<close> is a random multiple of its hashrate that no function
  below reads; it is left out.
\<close>

record miner =
  m_miner_id :: string
  m_hashrate :: real
  m_blocks_mined :: int
  m_total_mining_time :: real
  m_running :: bool

text \<open>\<open>Miner.update_stats\<close>.\<close>

definition miner_update_stats :: "miner \<Rightarrow> real \<Rightarrow> miner" where
  "miner_update_stats mn mining_time =
     mn\<lparr>m_blocks_mined := m_blocks_mined mn + 1,
        m_total_mining_time := m_total_mining_time mn + mining_time\<rparr>"

text \<open>
  The state of a \<open>MiningManager\<close>. The block callback is an outside listener whose
  exceptions \<open>submit_block\<close> catches; it is not part of the state.
\<close>

record manager =
  the_config :: config
  mining_stats :: mining_stats
  miners :: "miner list"
  blocks :: "block list"
  current_difficulty :: real
  block_reward :: real
  halving_blocks :: "int option"
  simulated_time :: real
  last_block_time :: real
  last_block_hash :: string
  transaction_pool :: "transaction list"
  block_counter :: nat

text \<open>Decimal digits of a natural number, as an f-string prints them.\<close>

function string_of_nat :: "nat \<Rightarrow> string" where
  "string_of_nat n =
     (if n < 10 then [char_of (48 + n)]
      else string_of_nat (n div 10) @ [char_of (48 + n mod 10)])"
  by pat_completeness auto
termination
  by (relation "measure id") auto

text \<open>\<open>MiningManager._create_miners\<close> and \<open>MiningManager.__init__\<close>.\<close>

definition create_miners :: "config \<Rightarrow> miner list" where
  "create_miners cfg =
     map (\<lambda>i. \<lparr>m_miner_id = ''miner_'' @ string_of_nat i, m_hashrate = c_hashrate cfg,
               m_blocks_mined = 0, m_total_mining_time = 0, m_running = False\<rparr>)
         [0..<nat (c_miners cfg)]"

definition MiningManager_init :: "config \<Rightarrow> mining_stats \<Rightarrow> manager" where
  "MiningManager_init cfg st =
     \<lparr>the_config = cfg, mining_stats = st, miners = create_miners cfg, blocks = [],
      current_difficulty = c_difficulty cfg, block_reward = c_reward cfg,
      halving_blocks = c_halving cfg, simulated_time = 0, last_block_time = 0,
      last_block_hash = ''genesis'', transaction_pool = [], block_counter = 0\<rparr>"

text \<open>\<open>MiningManager.get_next_block_id\<close>.\<close>

definition get_next_block_id :: "manager \<Rightarrow> string \<times> manager" where
  "get_next_block_id m =
     (''block_'' @ string_of_nat (block_counter m + 1),
      m\<lparr>block_counter := block_counter m + 1\<rparr>)"

text \<open>\<open>MiningManager._validate_block\<close>: three checks, in the source's order.\<close>

definition validate_block :: "manager \<Rightarrow> block \<Rightarrow> bool" where
  "validate_block m b =
     (if block_id b = [] \<or> hash b = [] then False
      else if list_ex (\<lambda>x. block_id x = block_id b) (blocks m) then False
      else if transaction_count b > c_blocksize (the_config m) then False
      else True)"

text \<open>
  \<open>MiningManager._get_miner_by_id\<close> returns the first miner with the given id;
  \<open>update_miner\<close> applies an in-place change to that same object.
\<close>

definition get_miner_by_id :: "manager \<Rightarrow> string \<Rightarrow> miner option" where
  "get_miner_by_id m mid = find (\<lambda>x. m_miner_id x = mid) (miners m)"

primrec update_miner :: "string \<Rightarrow> (miner \<Rightarrow> miner) \<Rightarrow> miner list \<Rightarrow> miner list" where
  "update_miner mid f [] = []"
| "update_miner mid f (x # xs) =
     (if m_miner_id x = mid then f x # xs else x # update_miner mid f xs)"

text \<open>\<open>statistics.mean\<close>: the exact mean; an empty argument raises.\<close>

definition mean :: "real list \<Rightarrow> py_error + real" where
  "mean xs = (if xs = [] then Inl StatisticsError
              else Inr (sum_list xs / real (length xs)))"

text \<open>
  \<open>MiningManager._adjust_difficulty\<close>. The slice \<open>blocks[-2016:]\<close> is the last 2016
  blocks; the division by the window's mean raises \<open>ZeroDivisionError\<close> when that mean
  is zero, before anything is assigned.
\<close>

definition adjust_difficulty :: "manager \<Rightarrow> py_error + manager" where
  "adjust_difficulty m =
     (if length (blocks m) < DIFFICULTY_ADJUSTMENT_BLOCKS then Inr m
      else
        let recent_blocks =
              drop (length (blocks m) - DIFFICULTY_ADJUSTMENT_BLOCKS) (blocks m)
        in case mean (map time_since_last recent_blocks) of
             Inl e \<Rightarrow> Inl e
           | Inr actual_avg_time \<Rightarrow>
               let target_time = c_blocktime (the_config m) in
               if actual_avg_time = 0 then Inl ZeroDivisionError
               else
                 let difficulty_change = target_time / actual_avg_time;
                     max_change = 1.5;
                     difficulty_change = max 0.67 (min max_change difficulty_change);
                     d = current_difficulty m * difficulty_change;
                     base_difficulty =
                       c_blocktime (the_config m) * real_of_int (c_miners (the_config m))
                         * c_hashrate (the_config m);
                     min_difficulty = base_difficulty * 0.1;
                     max_difficulty = base_difficulty * 5.0
                 in Inr (m\<lparr>current_difficulty :=
                              max min_difficulty (min max_difficulty d)\<rparr>))"

text \<open>\<open>MiningManager._halve_reward\<close>.\<close>

definition halve_reward :: "manager \<Rightarrow> manager" where
  "halve_reward m = m\<lparr>block_reward := block_reward m / 2\<rparr>"

text \<open>
  How a call of \<open>submit_block\<close> ends: it returns a boolean, or an exception leaves it.
  The manager after the call is given in both cases, since the assignments made before
  an exception stay.
\<close>

datatype outcome = Returned bool | Raised py_error

text \<open>The two guards of \<open>submit_block\<close>, on the chain length after the append.\<close>

definition adjustment_due :: "manager \<Rightarrow> bool" where
  "adjustment_due m =
     (length (blocks m) mod DIFFICULTY_ADJUSTMENT_BLOCKS = 0 \<and> length (blocks m) > 0)"

definition halving_due :: "manager \<Rightarrow> bool" where
  "halving_due m =
     (case halving_blocks m of
        None \<Rightarrow> False
      | Some h \<Rightarrow> h \<noteq> 0 \<and> int (length (blocks m)) mod h = 0 \<and> length (blocks m) > 0)"

text \<open>\<open>MiningManager.submit_block\<close>.\<close>

definition submit_block :: "manager \<Rightarrow> block \<Rightarrow> string \<Rightarrow> outcome \<times> manager" where
  "submit_block m b mid =
     (if \<not> validate_block m b then (Returned False, m)
      else
        let m1 = m\<lparr>blocks := blocks m @ [b],
                   last_block_time := timestamp b,
                   last_block_hash := hash b\<rparr>;
            m2 = (case get_miner_by_id m1 mid of
                    None \<Rightarrow> m1
                  | Some mn \<Rightarrow>
                      m1\<lparr>miners :=
                           update_miner mid (\<lambda>x. miner_update_stats x (time_since_last b))
                             (miners m1),
                         mining_stats :=
                           update_mining_stats (mining_stats m1) mid (time_since_last b)
                             (current_difficulty m1)\<rparr>)
        in case (if adjustment_due m2 then adjust_difficulty m2 else Inr m2) of
             Inl e \<Rightarrow> (Raised e, m2)
           | Inr m3 \<Rightarrow>
               (Returned True, if halving_due m3 then halve_reward m3 else m3))"

text \<open>
  \<open>MiningManager.get_transactions_for_block\<close>: the \<open>for\<close> loop runs \<open>max_tx\<close> times
  and pops the head of the pool while there is one.
\<close>

primrec pop_loop ::
    "nat \<Rightarrow> transaction list \<Rightarrow> transaction list \<Rightarrow> transaction list \<times> transaction list" where
  "pop_loop 0 pool txs = (txs, pool)"
| "pop_loop (Suc n) pool txs =
     (case pool of
        [] \<Rightarrow> pop_loop n pool txs
      | tx # rest \<Rightarrow> pop_loop n rest (txs @ [tx]))"

definition get_transactions_for_block :: "manager \<Rightarrow> transaction list \<times> manager" where
  "get_transactions_for_block m =
     (let max_tx = min (c_blocksize (the_config m)) (int (length (transaction_pool m)));
          (txs, pool) = pop_loop (nat max_tx) (transaction_pool m) []
      in (txs, m\<lparr>transaction_pool := pool\<rparr>))"

text \<open>\<open>MiningManager.add_transaction\<close> and \<open>get_pending_transaction_count\<close>.\<close>

definition add_transaction :: "manager \<Rightarrow> transaction \<Rightarrow> manager" where
  "add_transaction m tx = m\<lparr>transaction_pool := transaction_pool m @ [tx]\<rparr>"

definition get_pending_transaction_count :: "manager \<Rightarrow> int" where
  "get_pending_transaction_count m = int (length (transaction_pool m))"

text \<open>The two size constants of config.py.\<close>

definition HEADER_SIZE :: int where
  "HEADER_SIZE = 1024"

definition TRANSACTION_SIZE :: int where
  "TRANSACTION_SIZE = 256"

text \<open>
  \<open>Miner._calculate_expected_mining_time\<close>. The draw of \<open>random.uniform(0.8, 1.2)\<close>
  is the argument \<open>variance\<close>. Both branches on the chain length assign the same base
  time; the result is never below 1.
\<close>

definition calculate_expected_mining_time :: "manager \<Rightarrow> real \<Rightarrow> real" where
  "calculate_expected_mining_time m variance =
     (let target_block_time = c_blocktime (the_config m);
          base_time = (if length (blocks m) = 0 then target_block_time
                       else target_block_time);
          expected_time = base_time * variance
      in max 1.0 (min expected_time (target_block_time * 2)))"

text \<open>
  \<open>Miner._create_block\<close>: takes the transactions out of the pool, draws the next block
  id and builds the block. The SHA-256 digest that \<open>Block.__post_init__\<close> stores is
  the parameter \<open>digest\<close>, applied to the four fields that \<open>calculate_hash\<close> reads.
\<close>

definition create_block ::
    "(string \<Rightarrow> real \<Rightarrow> string \<Rightarrow> string \<Rightarrow> string) \<Rightarrow> manager \<Rightarrow> string \<Rightarrow> real \<Rightarrow> real
       \<Rightarrow> block \<times> manager" where
  "create_block digest m mid current_sim_time mining_time =
     (let (txs, m1) = get_transactions_for_block m;
          block_size = HEADER_SIZE + int (length txs) * TRANSACTION_SIZE;
          (bid, m2) = get_next_block_id m1;
          ts = current_sim_time + mining_time
      in (\<lparr>block_id = bid,
           timestamp = ts,
           time_since_last = mining_time,
           transaction_count = int (length txs),
           size_bytes = block_size,
           transactions = map tx_id txs,
           miner_reward = block_reward m2,
           previous_hash = last_block_hash m2,
           miner_id = mid,
           difficulty = current_difficulty m2,
           hash = digest bid ts (last_block_hash m2) mid,
           transaction_objects = txs\<rparr>, m2))"

text \<open>
  \<open>Miner.mine_block\<close>, called on the miner at index \<open>i\<close> of the manager's list: the
  one place in the repository that calls \<open>submit_block\<close>. An exception of the
  submission is caught and the attempt answers \<open>None\<close>; on success the miner's own
  counter is incremented once more.
\<close>

definition mine_block ::
    "(string \<Rightarrow> real \<Rightarrow> string \<Rightarrow> string \<Rightarrow> string) \<Rightarrow> manager \<Rightarrow> nat \<Rightarrow> real
       \<Rightarrow> block option \<times> manager" where
  "mine_block digest m i variance =
     (let mid = m_miner_id (miners m ! i);
          expected_mining_time = calculate_expected_mining_time m variance;
          current_sim_time = simulated_time m;
          (b, m1) = create_block digest m mid current_sim_time expected_mining_time
      in case submit_block m1 b mid of
           (Returned True, m2) \<Rightarrow>
             (Some b,
              m2\<lparr>miners := (miners m2)
                    [i := (miners m2 ! i)
                       \<lparr>m_blocks_mined := m_blocks_mined (miners m2 ! i) + 1\<rparr>]\<rparr>)
         | (Returned False, m2) \<Rightarrow> (None, m2)
         | (Raised e, m2) \<Rightarrow> (None, m2))"

text \<open>
  A run of mining attempts, each by the miner at the given index with the given draw.
\<close>

primrec mine_all ::
    "(string \<Rightarrow> real \<Rightarrow> string \<Rightarrow> string \<Rightarrow> string) \<Rightarrow> manager \<Rightarrow> (nat \<times> real) list
       \<Rightarrow> manager" where
  "mine_all digest m [] = m"
| "mine_all digest m (x # xs) = mine_all digest (snd (mine_block digest m (fst x) (snd x))) xs"

text \<open>A run of submissions, each by the miner named with it; how each call ends is dropped.\<close>

primrec submit_all :: "manager \<Rightarrow> (block \<times> string) list \<Rightarrow> manager" where
  "submit_all m [] = m"
| "submit_all m (x # xs) = submit_all (snd (submit_block m (fst x) (snd x))) xs"

subsection \<open>simulator.py: BlockchainSimulator\<close>

text \<open>
  The fields of the simulator that the termination check and the loop read. The
  simulator and its mining manager hold the same configuration object.
\<close>

record simulator =
  running :: bool
  blocks_mined :: int
  mining_manager :: manager

text \<open>
  \<open>BlockchainSimulator._should_terminate\<close>. The test \<open>self.config.blocks and ...\<close>
  holds for a target that is neither \<open>None\<close> nor 0.
\<close>

definition should_terminate :: "simulator \<Rightarrow> bool" where
  "should_terminate sim =
     (let cfg = the_config (mining_manager sim);
          pending_tx = get_pending_transaction_count (mining_manager sim);
          total_expected_transactions = c_wallets cfg * c_transactions cfg
      in if c_wallets cfg > 0 \<and> pending_tx = 0 \<and> blocks_mined sim > 0
            \<and> total_expected_transactions > 0
         then True
         else if (case c_blocks cfg of
                    None \<Rightarrow> False
                  | Some n \<Rightarrow> n \<noteq> 0 \<and> blocks_mined sim \<ge> n)
         then True
         else False)"

text \<open>
  \<open>BlockchainSimulator.stop\<close>, without the wall-clock stamp: the run flag and every
  miner's flag are cleared.
\<close>

definition stop :: "simulator \<Rightarrow> simulator" where
  "stop sim =
     sim\<lparr>running := False,
         mining_manager :=
           (mining_manager sim)
             \<lparr>miners := map (\<lambda>mn. mn\<lparr>m_running := False\<rparr>) (miners (mining_manager sim))\<rparr>\<rparr>"

text \<open>
  \<open>BlockchainSimulator._simulation_loop\<close>. What one iteration does after the
  termination check (the random mining attempt, the advance of simulated time, the
  statistics, the wall-clock paced update of the network conditions) is the parameter
  \<open>body\<close>: it gives the simulator after the iteration and the exception that left it,
  if one did. The \<open>while\<close> loop ends when the run flag is cleared, when the check
  holds, or when an exception reaches the handler around the loop; \<open>stop\<close> runs in the
  \<open>finally\<close> clause. A loop that never ends has the value \<open>None\<close>.
\<close>

partial_function (option) simulation_loop ::
    "(simulator \<Rightarrow> py_error option \<times> simulator) \<Rightarrow> simulator \<Rightarrow> simulator option" where
  "simulation_loop body sim =
     (if \<not> running sim then Some (stop sim)
      else if should_terminate sim then Some (stop sim)
      else case body sim of
             (Some e, sim') \<Rightarrow> Some (stop sim')
           | (None, sim') \<Rightarrow> simulation_loop body sim')"

text \<open>
  The simulator at the start of iteration \<open>k\<close> (counted from 0), or \<open>None\<close> when an
  earlier iteration raised.
\<close>

primrec iteration :: "(simulator \<Rightarrow> py_error option \<times> simulator) \<Rightarrow> nat \<Rightarrow> simulator
    \<Rightarrow> simulator option" where
  "iteration body 0 sim = Some sim"
| "iteration body (Suc k) sim =
     (case body sim of
        (Some e, sim') \<Rightarrow> None
      | (None, sim') \<Rightarrow> iteration body k sim')"

text \<open>
  Whether the loop goes on at iteration \<open>k\<close>: that iteration is reached without an
  exception, with the run flag set and the termination check false.
\<close>

definition goes_on :: "(simulator \<Rightarrow> py_error option \<times> simulator) \<Rightarrow> simulator \<Rightarrow> nat \<Rightarrow> bool" where
  "goes_on body sim k =
     (case iteration body k sim of
        None \<Rightarrow> False
      | Some s \<Rightarrow> running s \<and> \<not> should_terminate s)"

subsection \<open>Concrete inputs\<close>

text \<open>Two wallets, a transfer between them, and a transfer of a wallet to itself.\<close>

definition wallet_0 :: wallet where
  "wallet_0 = \<lparr>wallet_id = ''wallet_0'', balance = 10, transactions_sent = 0,
       transactions_received = 0, total_sent = 0, total_received = 0, total_fees = 0\<rparr>"

definition wallet_1 :: wallet where
  "wallet_1 = \<lparr>wallet_id = ''wallet_1'', balance = 0, transactions_sent = 0,
       transactions_received = 0, total_sent = 0, total_received = 0, total_fees = 0\<rparr>"

definition tx_0 :: transaction where
  "tx_0 = \<lparr>tx_id = ''tx_0'', sender = ''wallet_0'', recipient = ''wallet_1'', amount = 1,
       fee = 0.01, tx_timestamp = 0, status = ''pending'', priority = ''normal'',
       network_congestion = 0, tx_hash = ''a1''\<rparr>"

text \<open>
  What \<open>start_transaction_generation\<close> produces first for a workload of one wallet:
  sender \<open>wallet_0\<close>, recipient \<open>wallet_((0 + 1) % 1)\<close>, the same wallet.
\<close>

definition tx_self :: transaction where
  "tx_self = \<lparr>tx_id = ''tx_0'', sender = ''wallet_0'', recipient = ''wallet_0'', amount = 1,
       fee = 0.01, tx_timestamp = 0, status = ''pending'', priority = ''normal'',
       network_congestion = 0, tx_hash = ''a1''\<rparr>"

text \<open>
  The network of the end-to-end scenario: two nodes, each the other's only neighbour,
  no block stored yet; and a first block.
\<close>

definition stats_0 :: network_stats where
  "stats_0 = \<lparr>total_blocks_propagated = 0, total_transactions_propagated = 0,
       total_network_data = 0, total_io_requests = 0, average_propagation_time = 0,
       network_latency = 0, packet_loss_rate = 0\<rparr>"

definition net_pair :: network where
  "net_pair =
     \<lparr>nodes = [\<lparr>node_id = ''node_0'', stored_blocks = {}, neighbors = [1],
                 unconfirmed_transactions = []\<rparr>,
               \<lparr>node_id = ''node_1'', stored_blocks = {}, neighbors = [0],
                 unconfirmed_transactions = []\<rparr>],
      the_network_stats = stats_0\<rparr>"

definition block_1 :: block where
  "block_1 = \<lparr>block_id = ''block_1'', timestamp = 600, time_since_last = 600,
       transaction_count = 0, size_bytes = 1024, transactions = [], miner_reward = 50,
       previous_hash = ''genesis'', miner_id = ''miner_0'', difficulty = 3000000,
       hash = ''b1'', transaction_objects = []\<rparr>"

text \<open>
  The default configuration of the command line (five miners of hashrate 1000, block
  time 600, hence difficulty 3000000; reward 50, halving every 210000 blocks; one year,
  hence a target of 52560 blocks), fresh mining statistics, and the chain a run builds: block \<open>i\<close> (counted from 0) has the
  id that \<open>get_next_block_id\<close> hands out, \<open>block_(i+1)\<close>, is empty, and records the
  mining time \<open>t\<close>.
\<close>

definition cfg_default :: config where
  "cfg_default =
     \<lparr>c_nodes = 10, c_neighbors = 3, c_miners = 5, c_hashrate = 1000, c_blocktime = 600,
      c_difficulty = 3000000, c_reward = 50, c_halving = Some 210000, c_wallets = 0,
      c_transactions = 0, c_interval = 1, c_blocksize = 4096, c_blocks = Some 52560,
      c_years = 1, c_print_interval = 144, c_debug = False\<rparr>"

definition mining_stats_0 :: mining_stats where
  "mining_stats_0 =
     \<lparr>ms_total_blocks_mined = 0, ms_total_mining_time = 0, ms_average_mining_time = 0,
      ms_current_difficulty = 0, ms_total_hashrate = 0, ms_blocks_per_miner = Map.empty\<rparr>"

definition chain_block :: "real \<Rightarrow> nat \<Rightarrow> block" where
  "chain_block t i =
     \<lparr>block_id = ''block_'' @ string_of_nat (Suc i),
      timestamp = real (Suc i) * t,
      time_since_last = t,
      transaction_count = 0,
      size_bytes = 1024,
      transactions = [],
      miner_reward = 50,
      previous_hash = (if i = 0 then ''genesis'' else ''hash_'' @ string_of_nat i),
      miner_id = ''miner_0'',
      difficulty = 3000000,
      hash = ''hash_'' @ string_of_nat (Suc i),
      transaction_objects = []\<rparr>"

definition chain :: "real \<Rightarrow> nat \<Rightarrow> (block \<times> string) list" where
  "chain t n = map (\<lambda>i. (chain_block t i, ''miner_0'')) [0..<n]"

text \<open>The engine after the first 2015 blocks of such a chain have been submitted.\<close>

definition engine_2015 :: "config \<Rightarrow> real \<Rightarrow> manager" where
  "engine_2015 cfg t = submit_all (MiningManager_init cfg mining_stats_0) (chain t 2015)"

text \<open>
  A simulator at the start of its loop, and two stand-ins for the iteration body: one
  in which every mining attempt succeeds, so that each iteration adds a block to the
  count, and one in which none does.
\<close>

definition sim_start :: "config \<Rightarrow> simulator" where
  "sim_start cfg =
     \<lparr>running = True, blocks_mined = 0,
      mining_manager = MiningManager_init cfg mining_stats_0\<rparr>"

definition body_block_mined :: "simulator \<Rightarrow> py_error option \<times> simulator" where
  "body_block_mined sim = (None, sim\<lparr>blocks_mined := blocks_mined sim + 1\<rparr>)"

definition body_no_block :: "simulator \<Rightarrow> py_error option \<times> simulator" where
  "body_no_block sim =
     (None, sim\<lparr>mining_manager :=
                  (mining_manager sim)
                    \<lparr>simulated_time := simulated_time (mining_manager sim) + 300\<rparr>\<rparr>)"

text \<open>
  Two variations of the default: a custom difficulty, as the option \<open>--difficulty\<close>
  sets it, a hundred times the baseline; and a halving interval of 2016 blocks, as the
  option \<open>--halving\<close> sets it.
\<close>

definition cfg_custom_difficulty :: config where
  "cfg_custom_difficulty = cfg_default\<lparr>c_difficulty := 300000000\<rparr>"

definition cfg_halving_2016 :: config where
  "cfg_halving_2016 = cfg_default\<lparr>c_halving := Some 2016\<rparr>"

subsection \<open>Auxiliary notions for the proofs\<close>

text \<open>The baseline of the difficulty band, \<open>blocktime * miners * hashrate\<close>.\<close>

definition base_difficulty :: "config \<Rightarrow> real" where
  "base_difficulty cfg = c_blocktime cfg * real_of_int (c_miners cfg) * c_hashrate cfg"

definition in_band :: "config \<Rightarrow> real \<Rightarrow> bool" where
  "in_band cfg d = (base_difficulty cfg * 0.1 \<le> d \<and> d \<le> base_difficulty cfg * 5)"

text \<open>
  The manager inside \<open>submit_block\<close> once the block is appended and the miner's
  statistics are updated, before the two periodic adjustments.
\<close>

definition after_append :: "manager \<Rightarrow> block \<Rightarrow> string \<Rightarrow> manager" where
  "after_append m b mid =
     (let m1 = m\<lparr>blocks := blocks m @ [b],
                  last_block_time := timestamp b,
                  last_block_hash := hash b\<rparr>
      in case get_miner_by_id m1 mid of
           None \<Rightarrow> m1
         | Some mn \<Rightarrow>
             m1\<lparr>miners :=
                  update_miner mid (\<lambda>x. miner_update_stats x (time_since_last b)) (miners m1),
                mining_stats :=
                  update_mining_stats (mining_stats m1) mid (time_since_last b)
                    (current_difficulty m1)\<rparr>)"

text \<open>
  Every block of the chain records a mining time of at least 1, as every block that
  \<open>mine_block\<close> submits does.
\<close>

definition mined_times :: "manager \<Rightarrow> bool" where
  "mined_times m = list_all (\<lambda>x. 1 \<le> time_since_last x) (blocks m)"

text \<open>The mean mining time over the last 2016 blocks of the chain.\<close>

definition window_mean :: "manager \<Rightarrow> real" where
  "window_mean m =
     sum_list (map time_since_last
        (drop (length (blocks m) - DIFFICULTY_ADJUSTMENT_BLOCKS) (blocks m)))
       / real DIFFICULTY_ADJUSTMENT_BLOCKS"

section \<open>Wallet properties\<close>

lemma subtract_balance_enough:
  "balance w \<ge> amt + f \<Longrightarrow>
     subtract_balance w amt f =
       (True, w\<lparr>balance := balance w - (amt + f),
                 total_sent := total_sent w + amt,
                 total_fees := total_fees w + f,
                 transactions_sent := transactions_sent w + 1\<rparr>)"
  by (simp add: subtract_balance_def)

lemma subtract_balance_short:
  "balance w < amt + f \<Longrightarrow> subtract_balance w amt f = (False, w)"
  by (simp add: subtract_balance_def)

text \<open>
  C10. For a wallet with a non-negative balance and a non-negative amount and fee,
  \<open>subtract_balance\<close> either deducts exactly \<open>amount + fee\<close>, adds to the three sent
  counters and returns \<open>True\<close> (when the balance covers the deduction), or returns
  \<open>False\<close> and leaves the whole wallet as it was (when it does not); the balance after
  the call is never negative.
\<close>

theorem subtract_balance_total:
  assumes "0 \<le> balance w" and "0 \<le> amt" and "0 \<le> f"
  shows "(balance w \<ge> amt + f \<longrightarrow>
            fst (subtract_balance w amt f) = True \<and>
            balance (snd (subtract_balance w amt f)) = balance w - (amt + f) \<and>
            total_sent (snd (subtract_balance w amt f)) = total_sent w + amt \<and>
            total_fees (snd (subtract_balance w amt f)) = total_fees w + f \<and>
            transactions_sent (snd (subtract_balance w amt f)) = transactions_sent w + 1 \<and>
            wallet_id (snd (subtract_balance w amt f)) = wallet_id w \<and>
            transactions_received (snd (subtract_balance w amt f)) = transactions_received w \<and>
            total_received (snd (subtract_balance w amt f)) = total_received w)
       \<and> (balance w < amt + f \<longrightarrow> subtract_balance w amt f = (False, w))
       \<and> 0 \<le> balance (snd (subtract_balance w amt f))"
proof (cases "balance w \<ge> amt + f")
  case True
  then show ?thesis by (simp add: subtract_balance_enough)
next
  case False
  with assms show ?thesis by (simp add: subtract_balance_short)
qed

theorem subtract_balance_total_witness:
  "subtract_balance \<lparr>wallet_id = ''wallet_0'', balance = 10, transactions_sent = 0,
       transactions_received = 0, total_sent = 0, total_received = 0, total_fees = 0\<rparr> 4 1
     = (True, \<lparr>wallet_id = ''wallet_0'', balance = 5, transactions_sent = 1,
       transactions_received = 0, total_sent = 4, total_received = 0, total_fees = 1\<rparr>)
   \<and> subtract_balance \<lparr>wallet_id = ''wallet_0'', balance = 3, transactions_sent = 0,
       transactions_received = 0, total_sent = 0, total_received = 0, total_fees = 0\<rparr> 4 1
     = (False, \<lparr>wallet_id = ''wallet_0'', balance = 3, transactions_sent = 0,
       transactions_received = 0, total_sent = 0, total_received = 0, total_fees = 0\<rparr>)"
proof -
  let ?w = "\<lparr>wallet_id = ''wallet_0'', balance = 10, transactions_sent = 0,
       transactions_received = 0, total_sent = 0, total_received = 0, total_fees = 0\<rparr>"
  let ?v = "\<lparr>wallet_id = ''wallet_0'', balance = 3, transactions_sent = 0,
       transactions_received = 0, total_sent = 0, total_received = 0, total_fees = 0\<rparr>"
  have a: "fst (subtract_balance ?w 4 1) = True"
    using subtract_balance_total [of ?w 4 1] by simp
  have b: "subtract_balance ?v 4 1 = (False, ?v)"
    using subtract_balance_total [of ?v 4 1] by simp
  have c: "snd (subtract_balance ?w 4 1) = \<lparr>wallet_id = ''wallet_0'', balance = 5,
       transactions_sent = 1, transactions_received = 0, total_sent = 4,
       total_received = 0, total_fees = 1\<rparr>"
    by (simp add: subtract_balance_def)
  from a c have "subtract_balance ?w 4 1 = (True, \<lparr>wallet_id = ''wallet_0'', balance = 5,
       transactions_sent = 1, transactions_received = 0, total_sent = 4,
       total_received = 0, total_fees = 1\<rparr>)"
    by (metis prod.collapse)
  with b show ?thesis by simp
qed

lemma add_balance_fields:
  "balance (add_balance w a) = balance w + a"
  "total_received (add_balance w a) = total_received w + a"
  "transactions_received (add_balance w a) = transactions_received w + 1"
  "wallet_id (add_balance w a) = wallet_id w"
  "transactions_sent (add_balance w a) = transactions_sent w"
  "total_sent (add_balance w a) = total_sent w"
  "total_fees (add_balance w a) = total_fees w"
  by (simp_all add: add_balance_def)

text \<open>
  C9, as the code has it. When the recipient is a key of the wallet map,
  \<open>process_confirmed_transaction\<close> adds the amount to the recipient's balance and to
  its \<open>total_received\<close>, adds one to its \<open>transactions_received\<close>, leaves the
  recipient's sent-side fields alone, sets the transaction's status to \<open>confirmed\<close>
  and leaves every wallet stored under another key unchanged: the sender's wallet is
  untouched whenever the sender is not the recipient.
\<close>

theorem process_confirmed_transaction_credit:
  assumes "ws (recipient t) = Some w"
  shows "fst (process_confirmed_transaction ws t) (recipient t) = Some (add_balance w (amount t))
       \<and> balance (add_balance w (amount t)) = balance w + amount t
       \<and> total_received (add_balance w (amount t)) = total_received w + amount t
       \<and> transactions_received (add_balance w (amount t)) = transactions_received w + 1
       \<and> transactions_sent (add_balance w (amount t)) = transactions_sent w
       \<and> total_sent (add_balance w (amount t)) = total_sent w
       \<and> total_fees (add_balance w (amount t)) = total_fees w
       \<and> snd (process_confirmed_transaction ws t) = t\<lparr>status := ''confirmed''\<rparr>
       \<and> (\<forall>k. k \<noteq> recipient t \<longrightarrow> fst (process_confirmed_transaction ws t) k = ws k)
       \<and> (sender t \<noteq> recipient t \<longrightarrow>
            fst (process_confirmed_transaction ws t) (sender t) = ws (sender t))"
  using assms by (simp add: process_confirmed_transaction_def add_balance_fields)

theorem process_confirmed_transaction_credit_witness:
  "fst (process_confirmed_transaction [''wallet_0'' \<mapsto> wallet_0, ''wallet_1'' \<mapsto> wallet_1] tx_0)
       ''wallet_1''
     = Some \<lparr>wallet_id = ''wallet_1'', balance = 1, transactions_sent = 0,
         transactions_received = 1, total_sent = 0, total_received = 1, total_fees = 0\<rparr>
   \<and> fst (process_confirmed_transaction [''wallet_0'' \<mapsto> wallet_0, ''wallet_1'' \<mapsto> wallet_1] tx_0)
       ''wallet_0''
     = Some wallet_0
   \<and> status (snd (process_confirmed_transaction
        [''wallet_0'' \<mapsto> wallet_0, ''wallet_1'' \<mapsto> wallet_1] tx_0)) = ''confirmed''"
proof -
  let ?ws = "[''wallet_0'' \<mapsto> wallet_0, ''wallet_1'' \<mapsto> wallet_1]"
  have r: "?ws (recipient tx_0) = Some wallet_1"
    by (simp add: tx_0_def)
  have s: "sender tx_0 = ''wallet_0''" "recipient tx_0 = ''wallet_1''" "amount tx_0 = 1"
    by (simp_all add: tx_0_def)
  have "add_balance wallet_1 1 = \<lparr>wallet_id = ''wallet_1'', balance = 1, transactions_sent = 0,
         transactions_received = 1, total_sent = 0, total_received = 1, total_fees = 0\<rparr>"
    by (simp add: add_balance_def wallet_1_def)
  with process_confirmed_transaction_credit [of ?ws tx_0 wallet_1] r show ?thesis
    by (simp add: s)
qed

text \<open>
  C9 as stated fails for a transfer of a wallet to itself, which the workload generator
  produces when there is one wallet: the recipient exists, and the sender's wallet, being
  the recipient's, is changed by the credit.
\<close>

theorem process_confirmed_transaction_self_transfer:
  "[''wallet_0'' \<mapsto> wallet_0] (recipient tx_self) = Some wallet_0
   \<and> fst (process_confirmed_transaction [''wallet_0'' \<mapsto> wallet_0] tx_self) (sender tx_self)
       \<noteq> [''wallet_0'' \<mapsto> wallet_0] (sender tx_self)"
  by (simp add: process_confirmed_transaction_def add_balance_def wallet_0_def tx_self_def)

section \<open>Fee model\<close>

lemma clamp_max_min: "lo \<le> hi \<Longrightarrow> max lo (min x hi) = clamp x lo hi"
  by (auto simp: clamp_def max_def min_def)

lemma priority_mult_values:
  "priority_mult ''low'' = 0.5" "priority_mult ''normal'' = 1"
  "priority_mult ''high'' = 2" "priority_mult ''urgent'' = 5"
  by (simp_all add: priority_mult_def priority_multipliers_def)

lemma priority_mult_other:
  "p \<notin> {''low'', ''normal'', ''high'', ''urgent''} \<Longrightarrow> priority_mult p = 1"
  by (simp add: priority_mult_def priority_multipliers_def)

lemma calculate_fee_eq_clamp:
  "min_fee fc \<le> max_fee fc \<Longrightarrow>
   calculate_fee fc a p c =
     clamp (a * base_fee_rate fc * priority_mult p * (1 + 2 * c) * (1 + 0.5 * block_utilization fc))
       (min_fee fc) (max_fee fc)"
  by (simp add: calculate_fee_def Let_def clamp_max_min mult.commute)

lemma clamp_mono: "x \<le> y \<Longrightarrow> max lo (min x hi) \<le> max lo (min y (hi::real))"
  by (auto simp: max_def min_def)

lemma fee_urgent_ge_low:
  assumes "0 \<le> min_fee fc"
  shows "calculate_fee fc a ''low'' c \<le> calculate_fee fc a ''urgent'' c"
proof -
  define X where "X = a * base_fee_rate fc * (1 + c * 2) * (1 + block_utilization fc * 0.5)"
  have e1: "a * base_fee_rate fc * 0.5 * (1 + c * 2) * (1 + block_utilization fc * 0.5) = X * 0.5"
    and e2: "a * base_fee_rate fc * 5 * (1 + c * 2) * (1 + block_utilization fc * 0.5) = X * 5"
    by (simp_all add: X_def)
  have lo: "calculate_fee fc a ''low'' c = max (min_fee fc) (min (X * 0.5) (max_fee fc))"
    by (simp only: calculate_fee_def Let_def priority_mult_values e1)
  have ur: "calculate_fee fc a ''urgent'' c = max (min_fee fc) (min (X * 5) (max_fee fc))"
    by (simp only: calculate_fee_def Let_def priority_mult_values e2)
  show ?thesis
  proof (cases "0 \<le> X")
    case True
    then have "X * 0.5 \<le> X * 5" by simp
    then show ?thesis unfolding lo ur by (rule clamp_mono)
  next
    case False
    then have "min (X * 0.5) (max_fee fc) \<le> min_fee fc" using assms by (simp add: min_def)
    then have "max (min_fee fc) (min (X * 0.5) (max_fee fc)) = min_fee fc" by (rule max_absorb1)
    then show ?thesis unfolding lo ur by simp
  qed
qed

lemma fc_update_keeps_bounds:
  "min_fee (fc_update_network_conditions fc g v) = min_fee fc"
  "max_fee (fc_update_network_conditions fc g v) = max_fee fc"
  "base_fee_rate (fc_update_network_conditions fc g v) = base_fee_rate fc"
  by (simp_all add: fc_update_network_conditions_def)

text \<open>
  C5. A calculator is what the constructor builds, with whatever the later updates of
  the network conditions have put into its two mutable fields \<open>cm\<close> and \<open>u\<close>. For
  every amount \<open>a\<close>, priority string \<open>p\<close> and congestion \<open>c\<close> the fee lies between
  \<open>min_fee\<close> and \<open>max_fee\<close>; it is the clamp of
  \<open>a * fee_rate * priority_mult p * (1 + 2 * c) * (1 + 0.5 * u)\<close> to these bounds,
  where \<open>priority_mult\<close> is 0.5, 1, 2 and 5 on \<open>low\<close>, \<open>normal\<close>, \<open>high\<close> and
  \<open>urgent\<close>; and the fee at \<open>urgent\<close> is at least the fee at \<open>low\<close>.
\<close>

theorem calculate_fee_clamped:
  "min_fee (FeeCalculator_init\<lparr>congestion_multiplier := cm, block_utilization := u\<rparr>)
      \<le> calculate_fee (FeeCalculator_init\<lparr>congestion_multiplier := cm, block_utilization := u\<rparr>) a p c
   \<and> calculate_fee (FeeCalculator_init\<lparr>congestion_multiplier := cm, block_utilization := u\<rparr>) a p c
      \<le> max_fee (FeeCalculator_init\<lparr>congestion_multiplier := cm, block_utilization := u\<rparr>)
   \<and> calculate_fee (FeeCalculator_init\<lparr>congestion_multiplier := cm, block_utilization := u\<rparr>) a p c
      = clamp (a * TRANSACTION_CONFIG_fee_rate * priority_mult p * (1 + 2 * c) * (1 + 0.5 * u))
          TRANSACTION_CONFIG_min_fee TRANSACTION_CONFIG_max_fee
   \<and> priority_mult ''low'' = 0.5 \<and> priority_mult ''normal'' = 1
   \<and> priority_mult ''high'' = 2 \<and> priority_mult ''urgent'' = 5
   \<and> calculate_fee (FeeCalculator_init\<lparr>congestion_multiplier := cm, block_utilization := u\<rparr>) a ''low'' c
      \<le> calculate_fee (FeeCalculator_init\<lparr>congestion_multiplier := cm, block_utilization := u\<rparr>) a ''urgent'' c"
proof -
  let ?fc = "FeeCalculator_init\<lparr>congestion_multiplier := cm, block_utilization := u\<rparr>"
  have mn: "min_fee ?fc = TRANSACTION_CONFIG_min_fee" and mx: "max_fee ?fc = TRANSACTION_CONFIG_max_fee"
    and rt: "base_fee_rate ?fc = TRANSACTION_CONFIG_fee_rate" and ut: "block_utilization ?fc = u"
    by (simp_all add: FeeCalculator_init_def)
  have ord: "min_fee ?fc \<le> max_fee ?fc"
    by (simp add: mn mx TRANSACTION_CONFIG_min_fee_def TRANSACTION_CONFIG_max_fee_def)
  have pos: "0 \<le> min_fee ?fc"
    by (simp add: mn TRANSACTION_CONFIG_min_fee_def)
  have 1: "min_fee ?fc \<le> calculate_fee ?fc a p c"
    by (simp add: calculate_fee_def Let_def)
  have 2: "calculate_fee ?fc a p c \<le> max_fee ?fc"
    using ord by (simp add: calculate_fee_def Let_def)
  have 3: "calculate_fee ?fc a p c
      = clamp (a * TRANSACTION_CONFIG_fee_rate * priority_mult p * (1 + 2 * c) * (1 + 0.5 * u))
          TRANSACTION_CONFIG_min_fee TRANSACTION_CONFIG_max_fee"
    using calculate_fee_eq_clamp [OF ord, of a p c] by (simp only: mn mx rt ut)
  have 4: "calculate_fee ?fc a ''low'' c \<le> calculate_fee ?fc a ''urgent'' c"
    using pos by (rule fee_urgent_ge_low)
  from 1 2 3 4 show ?thesis by (simp only: priority_mult_values simp_thms)
qed

section \<open>Transaction pool\<close>

lemma pop_loop_take_drop:
  "pop_loop n pool txs = (txs @ take n pool, drop n pool)"
  by (induction n arbitrary: pool txs) (auto split: list.splits)

lemma get_transactions_for_block_eq:
  "get_transactions_for_block m =
     (take (nat (c_blocksize (the_config m))) (transaction_pool m),
      m\<lparr>transaction_pool := drop (nat (c_blocksize (the_config m))) (transaction_pool m)\<rparr>)"
  by (auto simp: get_transactions_for_block_def Let_def pop_loop_take_drop min_def)

text \<open>
  C6. The pool is a first-in first-out queue. \<open>add_transaction\<close> appends at the tail
  and changes nothing else. \<open>get_transactions_for_block\<close> returns the first
  \<open>blocksize\<close> transactions of the pool in their order (all of them when the pool is
  shorter, none when it is empty) and leaves the rest in the pool. After enqueuing
  \<open>A\<close> and then \<open>B\<close> into an empty pool, dequeuing with block size one yields \<open>A\<close>
  and leaves \<open>B\<close>.
\<close>

theorem transaction_pool_fifo:
  "add_transaction m tx = m\<lparr>transaction_pool := transaction_pool m @ [tx]\<rparr>
   \<and> fst (get_transactions_for_block m)
       = take (nat (c_blocksize (the_config m))) (transaction_pool m)
   \<and> snd (get_transactions_for_block m)
       = m\<lparr>transaction_pool := drop (nat (c_blocksize (the_config m))) (transaction_pool m)\<rparr>
   \<and> fst (get_transactions_for_block m) @ transaction_pool (snd (get_transactions_for_block m))
       = transaction_pool m
   \<and> length (fst (get_transactions_for_block m))
       = min (nat (c_blocksize (the_config m))) (length (transaction_pool m))
   \<and> fst (get_transactions_for_block (m\<lparr>transaction_pool := []\<rparr>)) = []
   \<and> get_transactions_for_block
        (add_transaction
          (add_transaction
            (m\<lparr>transaction_pool := [], the_config := (the_config m)\<lparr>c_blocksize := 1\<rparr>\<rparr>) A) B)
       = ([A], m\<lparr>transaction_pool := [B], the_config := (the_config m)\<lparr>c_blocksize := 1\<rparr>\<rparr>)"
  by (simp add: get_transactions_for_block_eq add_transaction_def)

section \<open>Network\<close>

lemma store_block_known:
  "block_id b \<in> stored_blocks (nodes net ! i) \<Longrightarrow> store_block net i b = (False, net)"
  by (simp add: store_block_def)

lemma store_block_new_stored:
  "i < length (nodes net) \<Longrightarrow>
     block_id b \<in> stored_blocks (nodes (snd (store_block net i b)) ! i)"
  by (simp add: store_block_def node_broadcast_block_def)

lemma store_block_twice:
  "i < length (nodes net) \<Longrightarrow>
     store_block (snd (store_block net i b)) i b = (False, snd (store_block net i b))"
  by (rule store_block_known) (rule store_block_new_stored)

text \<open>
  C7. \<open>store_block\<close> on a node that already holds the block returns \<open>False\<close> and
  leaves the whole network as it was: the node's set of stored blocks, and the shared
  propagation statistics (data volume, I/O count, mean propagation time).
\<close>

theorem store_block_idempotent:
  assumes "i < length (nodes net)" and "block_id b \<in> stored_blocks (nodes net ! i)"
  shows "store_block net i b = (False, net)
       \<and> stored_blocks (nodes (snd (store_block net i b)) ! i) = stored_blocks (nodes net ! i)
       \<and> total_network_data (the_network_stats (snd (store_block net i b)))
           = total_network_data (the_network_stats net)
       \<and> total_io_requests (the_network_stats (snd (store_block net i b)))
           = total_io_requests (the_network_stats net)
       \<and> average_propagation_time (the_network_stats (snd (store_block net i b)))
           = average_propagation_time (the_network_stats net)"
  using assms by (simp add: store_block_known)

theorem store_block_idempotent_witness:
  "store_block (snd (store_block net_pair 0 block_1)) 0 block_1
     = (False, snd (store_block net_pair 0 block_1))"
proof -
  have "block_id block_1 \<in> stored_blocks (nodes (snd (store_block net_pair 0 block_1)) ! 0)"
    by (simp add: store_block_def node_broadcast_block_def net_pair_def)
  moreover have "0 < length (nodes (snd (store_block net_pair 0 block_1)))"
    by (simp add: store_block_def node_broadcast_block_def net_pair_def)
  ultimately show ?thesis
    using store_block_idempotent [of 0 "snd (store_block net_pair 0 block_1)" block_1] by simp
qed

lemma broadcast_block_other_nodes:
  "j \<noteq> r mod length (nodes net) \<Longrightarrow> nodes (broadcast_block net r b) ! j = nodes net ! j"
  by (simp add: broadcast_block_def store_block_def node_broadcast_block_def)

lemma broadcast_block_origin:
  "nodes net \<noteq> [] \<Longrightarrow>
     block_id b \<in> stored_blocks (nodes (broadcast_block net r b) ! (r mod length (nodes net)))"
  by (simp add: broadcast_block_def store_block_def node_broadcast_block_def)

text \<open>
  C1 on the two-node network of the end-to-end scenario. Node 1 is a neighbour of the
  origin, node 0, hence reachable from it; after \<open>broadcast_block\<close> the origin holds
  the block and node 1 holds nothing. By \<open>broadcast_block_other_nodes\<close> this is so on
  every network: no node but the origin is changed.
\<close>

theorem broadcast_block_stays_at_origin:
  "1 \<in> reach net_pair 1 0
   \<and> stored_blocks (nodes (broadcast_block net_pair 0 block_1) ! 0) = {''block_1''}
   \<and> stored_blocks (nodes (broadcast_block net_pair 0 block_1) ! 1) = {}"
  by (simp add: broadcast_block_def store_block_def node_broadcast_block_def net_pair_def block_1_def)

section \<open>Termination of the simulation loop\<close>

lemma should_terminate_iff:
  "should_terminate sim \<longleftrightarrow>
     (c_wallets (the_config (mining_manager sim)) > 0
        \<and> c_wallets (the_config (mining_manager sim)) * c_transactions (the_config (mining_manager sim)) > 0
        \<and> transaction_pool (mining_manager sim) = []
        \<and> blocks_mined sim \<ge> 1)
     \<or> (\<exists>n. c_blocks (the_config (mining_manager sim)) = Some n \<and> n \<noteq> 0 \<and> blocks_mined sim \<ge> n)"
  by (auto simp: should_terminate_def Let_def get_pending_transaction_count_def split: option.splits)

lemma simulation_loop_ends_on_check:
  "should_terminate sim \<Longrightarrow> simulation_loop body sim = Some (stop sim)"
  by (subst simulation_loop.simps) simp

lemma loop_returns_stops:
  assumes "simulation_loop body sim = Some r"
  shows "\<exists>k. \<not> goes_on body sim k"
proof (rule simulation_loop.raw_induct
    [where P = "\<lambda>body sim r. \<exists>k. \<not> goes_on body sim k" and body = body and sim = sim and y = r])
  show "simulation_loop body sim = Some r" by fact
next
  fix f :: "(simulator \<Rightarrow> py_error option \<times> simulator) \<Rightarrow> simulator \<Rightarrow> simulator option"
  fix body sim r
  assume IH: "\<And>body sim y. f body sim = Some y \<Longrightarrow> \<exists>k. \<not> goes_on body sim k"
  assume eq: "(if \<not> running sim then Some (stop sim)
      else if should_terminate sim then Some (stop sim)
      else case body sim of (None, sim') \<Rightarrow> f body sim'
           | (Some e, sim') \<Rightarrow> Some (stop sim')) = Some r"
  show "\<exists>k. \<not> goes_on body sim k"
  proof (cases "running sim \<and> \<not> should_terminate sim")
    case False
    then have "\<not> goes_on body sim 0" by (simp add: goes_on_def)
    then show ?thesis by blast
  next
    case True
    obtain e sim' where b: "body sim = (e, sim')" by (cases "body sim")
    show ?thesis
    proof (cases e)
      case (Some x)
      with b have "\<not> goes_on body sim 1" by (simp add: goes_on_def)
      then show ?thesis by blast
    next
      case None
      with eq True b have "f body sim' = Some r" by simp
      then obtain k where "\<not> goes_on body sim' k" using IH by blast
      with b None have "\<not> goes_on body sim (Suc k)" by (simp add: goes_on_def)
      then show ?thesis by blast
    qed
  qed
qed

lemma loop_stops_returns:
  "\<not> goes_on body sim k \<Longrightarrow> \<exists>r. simulation_loop body sim = Some r"
proof (induction k arbitrary: sim)
  case 0
  then show ?case by (subst simulation_loop.simps) (auto simp: goes_on_def)
next
  case (Suc k)
  obtain e sim' where b: "body sim = (e, sim')" by (cases "body sim")
  show ?case
  proof (cases e)
    case (Some x)
    with b show ?thesis by (subst simulation_loop.simps) auto
  next
    case None
    with Suc.prems b have "\<not> goes_on body sim' k" by (simp add: goes_on_def)
    then obtain r where "simulation_loop body sim' = Some r" using Suc.IH by blast
    with b None show ?thesis by (subst simulation_loop.simps) auto
  qed
qed

text \<open>
  Two runs. With no workload and no block target, and no mining attempt succeeding, the
  loop never ends. With a target of five blocks and every attempt succeeding, it ends
  after exactly five blocks, stopped.
\<close>

lemma iteration_body_block_mined:
  "iteration body_block_mined k sim = Some (sim\<lparr>blocks_mined := blocks_mined sim + int k\<rparr>)"
  by (induction k arbitrary: sim) (simp_all add: body_block_mined_def)

lemma iteration_body_no_block:
  "iteration body_no_block k sim =
     Some (sim\<lparr>mining_manager :=
                 (mining_manager sim)
                   \<lparr>simulated_time := simulated_time (mining_manager sim) + 300 * real k\<rparr>\<rparr>)"
  by (induction k arbitrary: sim) (simp_all add: body_no_block_def algebra_simps)

lemma simulation_loop_unbounded_example:
  "simulation_loop body_no_block (sim_start (cfg_default\<lparr>c_blocks := None\<rparr>)) = None"
proof -
  have "goes_on body_no_block (sim_start (cfg_default\<lparr>c_blocks := None\<rparr>)) k" for k
    by (simp add: goes_on_def iteration_body_no_block should_terminate_def Let_def
        sim_start_def MiningManager_init_def cfg_default_def)
  then show ?thesis
    using loop_stops_returns [of body_no_block "sim_start (cfg_default\<lparr>c_blocks := None\<rparr>)"]
    by (metis loop_returns_stops not_None_eq)
qed

lemma simulation_loop_five_blocks:
  "simulation_loop body_block_mined (sim_start (cfg_default\<lparr>c_blocks := Some 5\<rparr>))
     = Some (stop ((sim_start (cfg_default\<lparr>c_blocks := Some 5\<rparr>))\<lparr>blocks_mined := 5\<rparr>))"
proof -
  let ?s = "sim_start (cfg_default\<lparr>c_blocks := Some 5\<rparr>)"
  have st: "should_terminate (?s\<lparr>blocks_mined := n\<rparr>) \<longleftrightarrow> 5 \<le> n" for n
    by (simp add: should_terminate_def Let_def sim_start_def MiningManager_init_def
        cfg_default_def)
  have run: "running (?s\<lparr>blocks_mined := n\<rparr>)" for n
    by (simp add: sim_start_def)
  have step: "simulation_loop body_block_mined (?s\<lparr>blocks_mined := n\<rparr>)
      = simulation_loop body_block_mined (?s\<lparr>blocks_mined := n + 1\<rparr>)" if "n < 5" for n
    using that by (subst simulation_loop.simps) (simp add: st run body_block_mined_def)
  have fin: "simulation_loop body_block_mined (?s\<lparr>blocks_mined := 5\<rparr>)
      = Some (stop (?s\<lparr>blocks_mined := 5\<rparr>))"
    by (subst simulation_loop.simps) (simp add: st run)
  have "?s = ?s\<lparr>blocks_mined := 0\<rparr>" by (simp add: sim_start_def)
  then have "simulation_loop body_block_mined ?s
      = simulation_loop body_block_mined (?s\<lparr>blocks_mined := 0\<rparr>)" by simp
  also have "\<dots> = simulation_loop body_block_mined (?s\<lparr>blocks_mined := 1\<rparr>)"
    using step [of 0] by simp
  also have "\<dots> = simulation_loop body_block_mined (?s\<lparr>blocks_mined := 2\<rparr>)"
    using step [of 1] by simp
  also have "\<dots> = simulation_loop body_block_mined (?s\<lparr>blocks_mined := 3\<rparr>)"
    using step [of 2] by simp
  also have "\<dots> = simulation_loop body_block_mined (?s\<lparr>blocks_mined := 4\<rparr>)"
    using step [of 3] by simp
  also have "\<dots> = simulation_loop body_block_mined (?s\<lparr>blocks_mined := 5\<rparr>)"
    using step [of 4] by simp
  finally show ?thesis using fin by simp
qed

text \<open>
  C8. The termination check holds exactly when (i) wallets and an expected transaction
  count are configured, the pool is empty and at least one block is mined, or (ii) a
  block target is configured (not \<open>None\<close>, not 0) and the mined blocks have reached
  it. The loop never ends (\<open>None\<close>) exactly when it goes on at every iteration, that
  is, when at every iteration the check is false, the run flag is still set and no
  exception has left the body: with neither condition ever true, only a cleared flag or
  an exception ends it.
\<close>

theorem should_terminate_conditions:
  "(should_terminate sim \<longleftrightarrow>
     (c_wallets (the_config (mining_manager sim)) > 0
        \<and> c_wallets (the_config (mining_manager sim))
            * c_transactions (the_config (mining_manager sim)) > 0
        \<and> transaction_pool (mining_manager sim) = []
        \<and> blocks_mined sim \<ge> 1)
     \<or> (\<exists>n. c_blocks (the_config (mining_manager sim)) = Some n \<and> n \<noteq> 0
            \<and> blocks_mined sim \<ge> n))
   \<and> (simulation_loop body sim = None \<longleftrightarrow> (\<forall>k. goes_on body sim k))"
proof -
  have "simulation_loop body sim = None \<longleftrightarrow> (\<forall>k. goes_on body sim k)"
    using loop_returns_stops [of body sim] loop_stops_returns [of body sim]
    by (metis option.distinct(1) not_None_eq)
  then show ?thesis using should_terminate_iff [of sim] by blast
qed

section \<open>Mining engine\<close>

declare string_of_nat.simps [simp del]

lemma string_of_nat_small: "n < 10 \<Longrightarrow> string_of_nat n = [char_of (48 + n)]"
  by (subst string_of_nat.simps) simp

lemma string_of_nat_large:
  "\<not> n < 10 \<Longrightarrow> string_of_nat n = string_of_nat (n div 10) @ [char_of (48 + n mod 10)]"
  by (subst string_of_nat.simps) simp

lemma string_of_nat_nonempty: "string_of_nat n \<noteq> []"
  by (cases "n < 10") (simp_all add: string_of_nat_small string_of_nat_large)

lemma digit_char_inj:
  fixes a b :: nat
  assumes "a < 10" and "b < 10" and "(char_of (48 + a) :: char) = char_of (48 + b)"
  shows "a = b"
proof -
  from assms(3) have "(48 + a) mod 256 = (48 + b) mod 256"
    by (simp add: char_of_eq_iff take_bit_eq_mod)
  with assms(1,2) show ?thesis by simp
qed

lemma string_of_nat_inj: "string_of_nat n = string_of_nat m \<Longrightarrow> n = m"
proof (induction n arbitrary: m rule: less_induct)
  case (less n)
  show ?case
  proof (cases "n < 10")
    case n: True
    show ?thesis
    proof (cases "m < 10")
      case True
      with n less.prems show ?thesis
        by (auto simp: string_of_nat_small dest: digit_char_inj)
    next
      case False
      with n less.prems string_of_nat_nonempty [of "m div 10"] show ?thesis
        by (simp add: string_of_nat_small string_of_nat_large)
    qed
  next
    case n: False
    show ?thesis
    proof (cases "m < 10")
      case True
      with n less.prems string_of_nat_nonempty [of "n div 10"] show ?thesis
        by (simp add: string_of_nat_small string_of_nat_large)
    next
      case False
      with n less.prems have a: "string_of_nat (n div 10) = string_of_nat (m div 10)"
        and b: "(char_of (48 + n mod 10) :: char) = char_of (48 + m mod 10)"
        by (simp_all add: string_of_nat_large)
      from n have "n div 10 < n" by simp
      then have "n div 10 = m div 10" using a by (rule less.IH)
      moreover have "n mod 10 = m mod 10"
        using b by (intro digit_char_inj) simp_all
      ultimately show ?thesis by (metis div_mult_mod_eq)
    qed
  qed
qed

lemma validate_block_iff:
  "validate_block m b \<longleftrightarrow>
     block_id b \<noteq> [] \<and> hash b \<noteq> [] \<and> block_id b \<notin> block_id ` set (blocks m)
     \<and> transaction_count b \<le> c_blocksize (the_config m)"
proof -
  have "list_ex (\<lambda>x. block_id x = block_id b) (blocks m)
          \<longleftrightarrow> block_id b \<in> block_id ` set (blocks m)"
    unfolding list_ex_iff image_iff by metis
  then show ?thesis by (auto simp: validate_block_def)
qed

lemma submit_block_unfold:
  "submit_block m b mid =
     (if \<not> validate_block m b then (Returned False, m)
      else case (if adjustment_due (after_append m b mid)
                 then adjust_difficulty (after_append m b mid)
                 else Inr (after_append m b mid)) of
             Inl e \<Rightarrow> (Raised e, after_append m b mid)
           | Inr m3 \<Rightarrow> (Returned True, if halving_due m3 then halve_reward m3 else m3))"
  unfolding submit_block_def after_append_def Let_def by (rule refl)

lemma after_append_fields:
  "blocks (after_append m b mid) = blocks m @ [b]"
  "current_difficulty (after_append m b mid) = current_difficulty m"
  "block_reward (after_append m b mid) = block_reward m"
  "halving_blocks (after_append m b mid) = halving_blocks m"
  "the_config (after_append m b mid) = the_config m"
  "last_block_time (after_append m b mid) = timestamp b"
  "last_block_hash (after_append m b mid) = hash b"
  "transaction_pool (after_append m b mid) = transaction_pool m"
  by (simp_all add: after_append_def Let_def split: option.splits)

lemma submit_block_rejected:
  "\<not> validate_block m b \<Longrightarrow> submit_block m b mid = (Returned False, m)"
  by (simp add: submit_block_unfold)

lemma submit_block_plain:
  "validate_block m b \<Longrightarrow> \<not> adjustment_due (after_append m b mid)
     \<Longrightarrow> \<not> halving_due (after_append m b mid)
     \<Longrightarrow> submit_block m b mid = (Returned True, after_append m b mid)"
  by (simp add: submit_block_unfold)

lemma adjust_difficulty_shape:
  "adjust_difficulty m = Inr m' \<Longrightarrow> \<exists>d. m' = m\<lparr>current_difficulty := d\<rparr>"
  unfolding adjust_difficulty_def
  by (auto simp: Let_def split: if_splits sum.splits intro: exI [of _ "current_difficulty m"])

lemma adjust_difficulty_eval:
  assumes "DIFFICULTY_ADJUSTMENT_BLOCKS \<le> length (blocks m)"
  shows "adjust_difficulty m =
     (if window_mean m = 0 then Inl ZeroDivisionError
      else Inr (m\<lparr>current_difficulty :=
             max (base_difficulty (the_config m) * 0.1)
               (min (base_difficulty (the_config m) * 5)
                  (current_difficulty m
                     * max 0.67 (min 1.5 (c_blocktime (the_config m) / window_mean m))))\<rparr>))"
proof -
  have len: "length (drop (length (blocks m) - DIFFICULTY_ADJUSTMENT_BLOCKS) (blocks m))
      = DIFFICULTY_ADJUSTMENT_BLOCKS"
    using assms by simp
  have ne: "map time_since_last
      (drop (length (blocks m) - DIFFICULTY_ADJUSTMENT_BLOCKS) (blocks m)) \<noteq> []"
    using len by (auto simp: DIFFICULTY_ADJUSTMENT_BLOCKS_def)
  have mn: "mean (map time_since_last
      (drop (length (blocks m) - DIFFICULTY_ADJUSTMENT_BLOCKS) (blocks m)))
      = Inr (window_mean m)"
    using ne len by (simp add: mean_def window_mean_def del: length_drop)
  show ?thesis
    using assms
    by (simp add: adjust_difficulty_def mn Let_def base_difficulty_def del: length_drop)
qed

lemma clamp_bounds:
  fixes lo hi x :: real
  assumes "lo \<le> hi"
  shows "lo \<le> max lo (min hi x)" and "max lo (min hi x) \<le> hi"
  using assms by (simp_all add: max_def min_def)

lemma adjust_band:
  assumes "0 \<le> base_difficulty (the_config m)"
    and "DIFFICULTY_ADJUSTMENT_BLOCKS \<le> length (blocks m)"
    and "adjust_difficulty m = Inr m'"
  shows "in_band (the_config m) (current_difficulty m')"
proof -
  let ?B = "base_difficulty (the_config m)"
  have ord: "?B * 0.1 \<le> ?B * 5" using assms(1) by simp
  from assms(2,3) obtain x where "current_difficulty m' = max (?B * 0.1) (min (?B * 5) x)"
    and "the_config m' = the_config m"
    by (auto simp: adjust_difficulty_eval split: if_splits)
  then show ?thesis
    using clamp_bounds [OF ord, of x] by (simp add: in_band_def)
qed

lemma clamp_ratio:
  fixes d c lo hi :: real
  assumes "0 \<le> d" "lo \<le> d" "d \<le> hi" "0.67 \<le> c" "c \<le> 1.5"
  shows "0.67 * d \<le> max lo (min hi (d * c)) \<and> max lo (min hi (d * c)) \<le> 1.5 * d"
proof -
  define y where "y = d * c"
  have a: "d * 0.67 \<le> y" unfolding y_def using assms(4,1) by (rule mult_left_mono)
  have b: "y \<le> d * 1.5" unfolding y_def using assms(5,1) by (rule mult_left_mono)
  from a b assms(1,2,3) show ?thesis
    unfolding y_def [symmetric] by (auto simp: max_def min_def)
qed

lemma change_bounds:
  fixes t :: real
  shows "0.67 \<le> max 0.67 (min 1.5 t)" and "max 0.67 (min 1.5 t) \<le> 1.5"
  by (simp_all add: max_def min_def)

lemma adjust_ratio:
  assumes "0 < base_difficulty (the_config m)"
    and "in_band (the_config m) (current_difficulty m)"
    and "DIFFICULTY_ADJUSTMENT_BLOCKS \<le> length (blocks m)"
    and "adjust_difficulty m = Inr m'"
  shows "0.67 * current_difficulty m \<le> current_difficulty m'
       \<and> current_difficulty m' \<le> 1.5 * current_difficulty m"
proof -
  let ?d = "current_difficulty m" and ?B = "base_difficulty (the_config m)"
  let ?c = "max 0.67 (min 1.5 (c_blocktime (the_config m) / window_mean m))"
  from assms(2) have lo: "?B * 0.1 \<le> ?d" and hi: "?d \<le> ?B * 5" by (simp_all add: in_band_def)
  from assms(1) lo have pos: "0 \<le> ?d" by simp
  from assms(3,4) have "current_difficulty m' = max (?B * 0.1) (min (?B * 5) (?d * ?c))"
    by (auto simp: adjust_difficulty_eval split: if_splits)
  then show ?thesis
    using clamp_ratio [OF pos lo hi change_bounds] by (simp only:)
qed

lemma adjustment_due_length:
  "adjustment_due m \<Longrightarrow> DIFFICULTY_ADJUSTMENT_BLOCKS \<le> length (blocks m)"
proof -
  assume "adjustment_due m"
  then have "length (blocks m) mod 2016 = 0" and "0 < length (blocks m)"
    by (simp_all add: adjustment_due_def DIFFICULTY_ADJUSTMENT_BLOCKS_def)
  then have "2016 \<le> length (blocks m)"
    by (cases "length (blocks m) < 2016") simp_all
  then show ?thesis by (simp add: DIFFICULTY_ADJUSTMENT_BLOCKS_def)
qed

lemma halve_reward_fields:
  "blocks (halve_reward m) = blocks m"
  "current_difficulty (halve_reward m) = current_difficulty m"
  "the_config (halve_reward m) = the_config m"
  "halving_blocks (halve_reward m) = halving_blocks m"
  "block_reward (halve_reward m) = block_reward m / 2"
  by (simp_all add: halve_reward_def)

lemma submit_block_TrueE:
  assumes "submit_block m b mid = (Returned True, m')"
  obtains m3 where "validate_block m b"
    and "(if adjustment_due (after_append m b mid)
          then adjust_difficulty (after_append m b mid)
          else Inr (after_append m b mid)) = Inr m3"
    and "m' = (if halving_due m3 then halve_reward m3 else m3)"
  using assms by (auto simp: submit_block_unfold split: if_splits sum.splits)

lemma adjusted_fields:
  assumes "(if adjustment_due m2 then adjust_difficulty m2 else Inr m2) = Inr m3"
  shows "blocks m3 = blocks m2" and "the_config m3 = the_config m2"
    and "block_reward m3 = block_reward m2" and "halving_blocks m3 = halving_blocks m2"
    and "\<not> adjustment_due m2 \<Longrightarrow> m3 = m2"
proof -
  have "\<exists>d. m3 = m2\<lparr>current_difficulty := d\<rparr>"
  proof (cases "adjustment_due m2")
    case True
    with assms show ?thesis by (simp add: adjust_difficulty_shape)
  next
    case False
    with assms have "m3 = m2\<lparr>current_difficulty := current_difficulty m2\<rparr>" by simp
    then show ?thesis by (rule exI)
  qed
  then obtain d where "m3 = m2\<lparr>current_difficulty := d\<rparr>" by blast
  then show "blocks m3 = blocks m2" and "the_config m3 = the_config m2"
    and "block_reward m3 = block_reward m2" and "halving_blocks m3 = halving_blocks m2"
    by simp_all
  show "\<not> adjustment_due m2 \<Longrightarrow> m3 = m2" using assms by simp
qed

lemma submit_block_config: "the_config (snd (submit_block m b mid)) = the_config m"
proof (cases "validate_block m b")
  case False
  then show ?thesis by (simp add: submit_block_rejected)
next
  case True
  show ?thesis
  proof (cases "if adjustment_due (after_append m b mid)
                then adjust_difficulty (after_append m b mid)
                else Inr (after_append m b mid)")
    case (Inl e)
    with True show ?thesis by (simp add: submit_block_unfold after_append_fields)
  next
    case (Inr m3)
    from adjusted_fields(2) [OF Inr] have "the_config m3 = the_config m"
      by (simp add: after_append_fields)
    with True Inr show ?thesis
      by (simp add: submit_block_unfold halve_reward_fields)
  qed
qed

lemma submit_block_keeps_band:
  assumes "0 \<le> base_difficulty (the_config m)"
    and "in_band (the_config m) (current_difficulty m)"
  shows "in_band (the_config m) (current_difficulty (snd (submit_block m b mid)))"
proof (cases "validate_block m b")
  case False
  with assms show ?thesis by (simp add: submit_block_rejected)
next
  case True
  let ?m2 = "after_append m b mid"
  show ?thesis
  proof (cases "if adjustment_due ?m2 then adjust_difficulty ?m2 else Inr ?m2")
    case (Inl e)
    with True assms show ?thesis by (simp add: submit_block_unfold after_append_fields)
  next
    case (Inr m3)
    have "in_band (the_config m) (current_difficulty m3)"
    proof (cases "adjustment_due ?m2")
      case False
      with Inr assms show ?thesis by (auto simp: after_append_fields)
    next
      case due: True
      with Inr have "adjust_difficulty ?m2 = Inr m3" by simp
      with assms(1) adjustment_due_length [OF due] adjust_band [of ?m2 m3]
      show ?thesis by (simp add: after_append_fields)
    qed
    with True Inr show ?thesis
      by (simp add: submit_block_unfold halve_reward_fields)
  qed
qed

lemma submit_all_config: "the_config (submit_all m xs) = the_config m"
  by (induction xs arbitrary: m) (simp_all add: submit_block_config)

lemma submit_all_keeps_band:
  "0 \<le> base_difficulty (the_config m) \<Longrightarrow> in_band (the_config m) (current_difficulty m)
     \<Longrightarrow> in_band (the_config m) (current_difficulty (submit_all m xs))"
proof (induction xs arbitrary: m)
  case Nil
  then show ?case by simp
next
  case (Cons x xs)
  let ?m1 = "snd (submit_block m (fst x) (snd x))"
  have c: "the_config ?m1 = the_config m" by (rule submit_block_config)
  have "in_band (the_config ?m1) (current_difficulty ?m1)"
    unfolding c using Cons.prems by (rule submit_block_keeps_band)
  moreover have "0 \<le> base_difficulty (the_config ?m1)" using Cons.prems(1) by (simp only: c)
  ultimately have "in_band (the_config ?m1) (current_difficulty (submit_all ?m1 xs))"
    by (rule Cons.IH [rotated])
  then show ?case by (simp add: c)
qed

lemma chain_block_fields:
  "block_id (chain_block t i) = ''block_'' @ string_of_nat (Suc i)"
  "hash (chain_block t i) = ''hash_'' @ string_of_nat (Suc i)"
  "transaction_count (chain_block t i) = 0"
  "time_since_last (chain_block t i) = t"
  by (simp_all add: chain_block_def)

lemma chain_block_id_inj:
  "block_id (chain_block t i) = block_id (chain_block t j) \<longleftrightarrow> i = j"
  by (auto simp: chain_block_fields dest: string_of_nat_inj)

lemma chain_ids_distinct: "distinct (map block_id (map (chain_block t) [0..<n]))"
  by (simp add: distinct_map inj_on_def chain_block_id_inj)

lemma submit_all_run:
  assumes "length (blocks m) + length xs < DIFFICULTY_ADJUSTMENT_BLOCKS"
    and "\<forall>x \<in> set xs. block_id (fst x) \<noteq> [] \<and> hash (fst x) \<noteq> []
            \<and> transaction_count (fst x) \<le> c_blocksize (the_config m)"
    and "distinct (map block_id (blocks m @ map fst xs))"
    and "case halving_blocks m of None \<Rightarrow> True
         | Some h \<Rightarrow> int (length (blocks m) + length xs) < h"
  shows "blocks (submit_all m xs) = blocks m @ map fst xs
       \<and> current_difficulty (submit_all m xs) = current_difficulty m
       \<and> block_reward (submit_all m xs) = block_reward m
       \<and> halving_blocks (submit_all m xs) = halving_blocks m"
  using assms
proof (induction xs arbitrary: m)
  case Nil
  then show ?case by simp
next
  case (Cons x xs)
  let ?b = "fst x" and ?mid = "snd x"
  let ?m1 = "after_append m ?b ?mid"
  have v: "validate_block m ?b"
    using Cons.prems(2,3) by (auto simp: validate_block_iff)
  have len1: "length (blocks ?m1) = Suc (length (blocks m))"
    by (simp add: after_append_fields)
  have small: "Suc (length (blocks m)) < DIFFICULTY_ADJUSTMENT_BLOCKS"
    using Cons.prems(1) by simp
  have nadj: "\<not> adjustment_due ?m1"
    using small by (simp add: adjustment_due_def len1)
  have nhalv: "\<not> halving_due ?m1"
  proof (cases "halving_blocks m")
    case None
    then show ?thesis by (simp add: halving_due_def after_append_fields)
  next
    case (Some h)
    with Cons.prems(4) have "int (Suc (length (blocks m))) < h" by simp
    then have "int (Suc (length (blocks m))) mod h = int (Suc (length (blocks m)))"
      by (simp add: mod_pos_pos_trivial)
    with Some show ?thesis
      by (simp add: halving_due_def after_append_fields del: of_nat_Suc)
  qed
  have step: "submit_block m ?b ?mid = (Returned True, ?m1)"
    using v nadj nhalv by (rule submit_block_plain)
  have "blocks (submit_all ?m1 xs) = blocks ?m1 @ map fst xs
       \<and> current_difficulty (submit_all ?m1 xs) = current_difficulty ?m1
       \<and> block_reward (submit_all ?m1 xs) = block_reward ?m1
       \<and> halving_blocks (submit_all ?m1 xs) = halving_blocks ?m1"
  proof (rule Cons.IH)
    show "length (blocks ?m1) + length xs < DIFFICULTY_ADJUSTMENT_BLOCKS"
      using Cons.prems(1) by (simp add: after_append_fields)
    show "\<forall>x \<in> set xs. block_id (fst x) \<noteq> [] \<and> hash (fst x) \<noteq> []
            \<and> transaction_count (fst x) \<le> c_blocksize (the_config ?m1)"
      using Cons.prems(2) by (simp add: after_append_fields)
    show "distinct (map block_id (blocks ?m1 @ map fst xs))"
      using Cons.prems(3) by (simp add: after_append_fields)
    show "case halving_blocks ?m1 of None \<Rightarrow> True
         | Some h \<Rightarrow> int (length (blocks ?m1) + length xs) < h"
      using Cons.prems(4) by (simp add: after_append_fields split: option.splits)
  qed
  then show ?case by (simp add: step after_append_fields)
qed

lemma engine_2015_fields:
  assumes "0 \<le> c_blocksize cfg"
    and "case c_halving cfg of None \<Rightarrow> True | Some h \<Rightarrow> 2015 < h"
  shows "blocks (engine_2015 cfg t) = map (chain_block t) [0..<2015]"
    and "current_difficulty (engine_2015 cfg t) = c_difficulty cfg"
    and "block_reward (engine_2015 cfg t) = c_reward cfg"
    and "halving_blocks (engine_2015 cfg t) = c_halving cfg"
    and "the_config (engine_2015 cfg t) = cfg"
proof -
  let ?m = "MiningManager_init cfg mining_stats_0"
  have "blocks (submit_all ?m (chain t 2015)) = blocks ?m @ map fst (chain t 2015)
       \<and> current_difficulty (submit_all ?m (chain t 2015)) = current_difficulty ?m
       \<and> block_reward (submit_all ?m (chain t 2015)) = block_reward ?m
       \<and> halving_blocks (submit_all ?m (chain t 2015)) = halving_blocks ?m"
  proof (rule submit_all_run)
    show "length (blocks ?m) + length (chain t 2015) < DIFFICULTY_ADJUSTMENT_BLOCKS"
      by (simp add: MiningManager_init_def chain_def DIFFICULTY_ADJUSTMENT_BLOCKS_def)
    show "\<forall>x \<in> set (chain t 2015). block_id (fst x) \<noteq> [] \<and> hash (fst x) \<noteq> []
            \<and> transaction_count (fst x) \<le> c_blocksize (the_config ?m)"
      using assms(1) by (auto simp: chain_def chain_block_fields MiningManager_init_def)
    show "distinct (map block_id (blocks ?m @ map fst (chain t 2015)))"
      using chain_ids_distinct [of t 2015]
      by (simp add: MiningManager_init_def chain_def comp_def)
    show "case halving_blocks ?m of None \<Rightarrow> True
         | Some h \<Rightarrow> int (length (blocks ?m) + length (chain t 2015)) < h"
      using assms(2) by (simp add: MiningManager_init_def chain_def split: option.splits)
  qed
  then show "blocks (engine_2015 cfg t) = map (chain_block t) [0..<2015]"
    and "current_difficulty (engine_2015 cfg t) = c_difficulty cfg"
    and "block_reward (engine_2015 cfg t) = c_reward cfg"
    and "halving_blocks (engine_2015 cfg t) = c_halving cfg"
    by (simp_all add: engine_2015_def MiningManager_init_def chain_def comp_def)
  show "the_config (engine_2015 cfg t) = cfg"
    by (simp add: engine_2015_def submit_all_config MiningManager_init_def)
qed

lemma submit_block_accepts:
  assumes "validate_block m b"
    and "\<not> (adjustment_due (after_append m b mid) \<and> window_mean (after_append m b mid) = 0)"
  shows "fst (submit_block m b mid) = Returned True
       \<and> blocks (snd (submit_block m b mid)) = blocks m @ [b]"
proof -
  let ?m2 = "after_append m b mid"
  obtain m3 where adj: "(if adjustment_due ?m2 then adjust_difficulty ?m2 else Inr ?m2) = Inr m3"
  proof (cases "adjustment_due ?m2")
    case True
    with assms(2) have "window_mean ?m2 \<noteq> 0" by simp
    with True adjustment_due_length [OF True] that show ?thesis
      by (simp add: adjust_difficulty_eval)
  next
    case False
    with that show ?thesis by simp
  qed
  have "blocks m3 = blocks m @ [b]"
    using adjusted_fields(1) [OF adj] by (simp add: after_append_fields)
  with assms(1) adj show ?thesis
    by (simp add: submit_block_unfold halve_reward_fields)
qed

lemma submit_block_raises:
  assumes "validate_block m b"
    and "adjustment_due (after_append m b mid)"
    and "window_mean (after_append m b mid) = 0"
  shows "submit_block m b mid = (Raised ZeroDivisionError, after_append m b mid)"
  using assms adjustment_due_length [OF assms(2)]
  by (simp add: submit_block_unfold adjust_difficulty_eval)

lemma halving_due_cong:
  "blocks m = blocks m' \<Longrightarrow> halving_blocks m = halving_blocks m' \<Longrightarrow> halving_due m = halving_due m'"
  unfolding halving_due_def by (simp only:)

lemma submit_block_reward:
  assumes "submit_block m b mid = (Returned True, m')"
  shows "block_reward m' = (if halving_due m' then block_reward m / 2 else block_reward m)"
proof -
  let ?m2 = "after_append m b mid"
  from assms obtain m3 where
    adj: "(if adjustment_due ?m2 then adjust_difficulty ?m2 else Inr ?m2) = Inr m3"
    and m': "m' = (if halving_due m3 then halve_reward m3 else m3)"
    by (rule submit_block_TrueE)
  have r: "block_reward m3 = block_reward m"
    using adjusted_fields(3) [OF adj] by (simp add: after_append_fields)
  have "halving_due m' = halving_due m3"
    using m' by (intro halving_due_cong) (simp_all add: halve_reward_fields)
  with m' r show ?thesis by (simp add: halve_reward_fields)
qed

lemma submit_block_reward_unset:
  assumes "halving_blocks m = None"
  shows "block_reward (snd (submit_block m b mid)) = block_reward m"
proof (cases "validate_block m b")
  case False
  then show ?thesis by (simp add: submit_block_rejected)
next
  case True
  let ?m2 = "after_append m b mid"
  show ?thesis
  proof (cases "if adjustment_due ?m2 then adjust_difficulty ?m2 else Inr ?m2")
    case (Inl e)
    with True show ?thesis by (simp add: submit_block_unfold after_append_fields)
  next
    case (Inr m3)
    from adjusted_fields(3,4) [OF Inr] assms
    have "block_reward m3 = block_reward m" and "\<not> halving_due m3"
      by (simp_all add: after_append_fields halving_due_def)
    with True Inr show ?thesis by (simp add: submit_block_unfold)
  qed
qed

lemma engine_2016_step:
  assumes "0 \<le> c_blocksize cfg"
    and "case c_halving cfg of None \<Rightarrow> True | Some h \<Rightarrow> 2015 < h"
  shows "validate_block (engine_2015 cfg t) (chain_block t 2015)"
    and "blocks (after_append (engine_2015 cfg t) (chain_block t 2015) mid)
           = map (chain_block t) [0..<2016]"
    and "adjustment_due (after_append (engine_2015 cfg t) (chain_block t 2015) mid)"
    and "window_mean (after_append (engine_2015 cfg t) (chain_block t 2015) mid) = t"
proof -
  note f = engine_2015_fields [OF assms]
  have "block_id (chain_block t 2015) \<notin> block_id ` set (map (chain_block t) [0..<2015])"
    by (auto simp: chain_block_id_inj)
  then show "validate_block (engine_2015 cfg t) (chain_block t 2015)"
    using assms(1) by (simp add: validate_block_iff f chain_block_fields)
  have up: "[0..<2016] = [0..<2015] @ [2015]"
    using upt_Suc_append [of 0 2015] by simp
  show b: "blocks (after_append (engine_2015 cfg t) (chain_block t 2015) mid)
           = map (chain_block t) [0..<2016]"
    by (simp add: after_append_fields f up)
  show "adjustment_due (after_append (engine_2015 cfg t) (chain_block t 2015) mid)"
    by (simp add: adjustment_due_def b DIFFICULTY_ADJUSTMENT_BLOCKS_def)
  have "sum_list (map time_since_last (map (chain_block t) [0..<2016])) = 2016 * t"
    by (simp add: comp_def chain_block_fields sum_list_triv)
  then show "window_mean (after_append (engine_2015 cfg t) (chain_block t 2015) mid) = t"
    by (simp add: window_mean_def b DIFFICULTY_ADJUSTMENT_BLOCKS_def)
qed

lemma engine_2016_adjusted:
  assumes "0 \<le> c_blocksize cfg"
    and "case c_halving cfg of None \<Rightarrow> True | Some h \<Rightarrow> 2015 < h"
    and "t \<noteq> 0"
  shows "fst (submit_block (engine_2015 cfg t) (chain_block t 2015) mid) = Returned True"
    and "blocks (snd (submit_block (engine_2015 cfg t) (chain_block t 2015) mid))
           = map (chain_block t) [0..<2016]"
    and "current_difficulty (snd (submit_block (engine_2015 cfg t) (chain_block t 2015) mid))
           = max (base_difficulty cfg * 0.1)
               (min (base_difficulty cfg * 5)
                  (c_difficulty cfg * max 0.67 (min 1.5 (c_blocktime cfg / t))))"
    and "block_reward (snd (submit_block (engine_2015 cfg t) (chain_block t 2015) mid))
           = (if c_halving cfg = Some 2016 then c_reward cfg / 2 else c_reward cfg)"
proof -
  let ?M = "engine_2015 cfg t" and ?B = "chain_block t 2015"
  let ?m2 = "after_append ?M ?B mid"
  note f = engine_2015_fields [OF assms(1,2)]
  note st = engine_2016_step [OF assms(1,2)]
  define d where "d = max (base_difficulty cfg * 0.1)
               (min (base_difficulty cfg * 5)
                  (c_difficulty cfg * max 0.67 (min 1.5 (c_blocktime cfg / t))))"
  define m3 where "m3 = ?m2\<lparr>current_difficulty := d\<rparr>"
  have "blocks m3 = blocks ?m2" by (simp add: m3_def)
  then have m3b: "blocks m3 = map (chain_block t) [0..<2016]" by (simp only: st(2))
  have m3r: "halving_blocks m3 = c_halving cfg" "block_reward m3 = c_reward cfg"
    "current_difficulty m3 = d"
    by (simp_all add: m3_def after_append_fields f)
  note m3 = m3b m3r
  have adj: "adjust_difficulty ?m2 = Inr m3"
    using adjustment_due_length [OF st(3)] assms(3)
    by (simp add: adjust_difficulty_eval st(4) after_append_fields f m3_def d_def)
  have sub: "submit_block ?M ?B mid
      = (Returned True, if halving_due m3 then halve_reward m3 else m3)"
    using st(1) st(3) adj by (simp add: submit_block_unfold)
  have hd: "halving_due m3 \<longleftrightarrow> c_halving cfg = Some 2016"
  proof (cases "c_halving cfg")
    case None
    then show ?thesis by (simp add: halving_due_def m3)
  next
    case (Some h)
    with assms(2) have h: "2015 < h" by simp
    have "(2016::int) mod h = 0 \<longleftrightarrow> h = 2016"
    proof (cases "h = 2016")
      case True
      then show ?thesis by simp
    next
      case False
      with h have "2016 < h" by simp
      then have "(2016::int) mod h = 2016" by (simp add: mod_pos_pos_trivial)
      with False show ?thesis by simp
    qed
    with Some h show ?thesis
      by (auto simp: halving_due_def m3)
  qed
  show "fst (submit_block ?M ?B mid) = Returned True" by (simp add: sub)
  show "blocks (snd (submit_block ?M ?B mid)) = map (chain_block t) [0..<2016]"
    by (simp add: sub halve_reward_fields m3)
  show "current_difficulty (snd (submit_block ?M ?B mid))
           = max (base_difficulty cfg * 0.1)
               (min (base_difficulty cfg * 5)
                  (c_difficulty cfg * max 0.67 (min 1.5 (c_blocktime cfg / t))))"
    unfolding d_def [symmetric] by (simp add: sub halve_reward_fields m3)
  show "block_reward (snd (submit_block ?M ?B mid))
           = (if c_halving cfg = Some 2016 then c_reward cfg / 2 else c_reward cfg)"
    by (cases "halving_due m3") (use hd in \<open>simp_all add: sub halve_reward_fields m3\<close>)
qed

lemma cfg_default_fields:
  "c_blocksize cfg_default = 4096" "c_halving cfg_default = Some 210000"
  "c_difficulty cfg_default = 3000000" "c_blocktime cfg_default = 600"
  "c_reward cfg_default = 50" "base_difficulty cfg_default = 3000000"
  by (simp_all add: cfg_default_def base_difficulty_def)

lemma cfg_custom_difficulty_fields:
  "c_blocksize cfg_custom_difficulty = 4096" "c_halving cfg_custom_difficulty = Some 210000"
  "c_difficulty cfg_custom_difficulty = 300000000" "c_blocktime cfg_custom_difficulty = 600"
  "c_reward cfg_custom_difficulty = 50" "base_difficulty cfg_custom_difficulty = 3000000"
  by (simp_all add: cfg_custom_difficulty_def cfg_default_def base_difficulty_def)

lemma cfg_halving_2016_fields:
  "c_blocksize cfg_halving_2016 = 4096" "c_halving cfg_halving_2016 = Some 2016"
  "c_difficulty cfg_halving_2016 = 3000000" "c_blocktime cfg_halving_2016 = 600"
  "c_reward cfg_halving_2016 = 50" "base_difficulty cfg_halving_2016 = 3000000"
  by (simp_all add: cfg_halving_2016_def cfg_default_def base_difficulty_def)

lemma halving_at_2016_when_times_positive:
  "block_reward (snd (submit_block (engine_2015 cfg_halving_2016 600) (chain_block 600 2015)
      ''miner_0'')) = 25"
  using engine_2016_adjusted(4) [of cfg_halving_2016 600 "''miner_0''"]
  by (simp add: cfg_halving_2016_fields)

text \<open>
  The blocks that reach \<open>submit_block\<close>. Its one caller is \<open>mine_block\<close>, whose
  block records the expected mining time, at least 1. So a chain built by mining holds
  only such blocks, the mean of every window is at least 1, and a submission of such a
  block to such a chain always returns.
\<close>

lemma expected_mining_time_ge_1: "1 \<le> calculate_expected_mining_time m variance"
  by (simp add: calculate_expected_mining_time_def Let_def)

lemma create_block_fields:
  "time_since_last (fst (create_block digest m mid now t)) = t"
  "blocks (snd (create_block digest m mid now t)) = blocks m"
  "the_config (snd (create_block digest m mid now t)) = the_config m"
  by (simp_all add: create_block_def get_transactions_for_block_eq get_next_block_id_def
      Let_def split: prod.splits)

lemma submit_block_blocks:
  "blocks (snd (submit_block m b mid))
     = (if validate_block m b then blocks m @ [b] else blocks m)"
proof (cases "validate_block m b")
  case False
  then show ?thesis by (simp add: submit_block_rejected)
next
  case True
  let ?m2 = "after_append m b mid"
  show ?thesis
  proof (cases "if adjustment_due ?m2 then adjust_difficulty ?m2 else Inr ?m2")
    case (Inl e)
    with True show ?thesis by (simp add: submit_block_unfold after_append_fields)
  next
    case (Inr m3)
    from adjusted_fields(1) [OF Inr] have "blocks m3 = blocks m @ [b]"
      by (simp add: after_append_fields)
    with True Inr show ?thesis by (simp add: submit_block_unfold halve_reward_fields)
  qed
qed

lemma sum_list_ge_length:
  fixes f :: "'a \<Rightarrow> real"
  shows "list_all (\<lambda>x. 1 \<le> f x) xs \<Longrightarrow> real (length xs) \<le> sum_list (map f xs)"
  by (induction xs) auto

lemma window_mean_ge_1:
  assumes "mined_times m" and "DIFFICULTY_ADJUSTMENT_BLOCKS \<le> length (blocks m)"
  shows "1 \<le> window_mean m"
proof -
  let ?w = "drop (length (blocks m) - DIFFICULTY_ADJUSTMENT_BLOCKS) (blocks m)"
  have len: "length ?w = DIFFICULTY_ADJUSTMENT_BLOCKS" using assms(2) by simp
  have "list_all (\<lambda>x. 1 \<le> time_since_last x) ?w"
    using assms(1) by (auto simp: mined_times_def list_all_iff dest: in_set_dropD)
  then have "real (length ?w) \<le> sum_list (map time_since_last ?w)"
    by (rule sum_list_ge_length)
  then have "real DIFFICULTY_ADJUSTMENT_BLOCKS \<le> sum_list (map time_since_last ?w)"
    by (simp only: len)
  then show ?thesis
    by (simp add: window_mean_def DIFFICULTY_ADJUSTMENT_BLOCKS_def del: length_drop)
qed

lemma after_append_mined_times:
  "mined_times m \<Longrightarrow> 1 \<le> time_since_last b \<Longrightarrow> mined_times (after_append m b mid)"
  by (simp add: mined_times_def after_append_fields)

lemma submit_block_returns:
  assumes "mined_times m" and "1 \<le> time_since_last b"
  shows "fst (submit_block m b mid) = Returned (validate_block m b)"
proof (cases "validate_block m b")
  case False
  then show ?thesis by (simp add: submit_block_rejected)
next
  case True
  let ?m2 = "after_append m b mid"
  have "\<not> (adjustment_due ?m2 \<and> window_mean ?m2 = 0)"
  proof
    assume a: "adjustment_due ?m2 \<and> window_mean ?m2 = 0"
    then have "DIFFICULTY_ADJUSTMENT_BLOCKS \<le> length (blocks ?m2)"
      by (simp add: adjustment_due_length)
    with after_append_mined_times [OF assms] have "1 \<le> window_mean ?m2"
      by (rule window_mean_ge_1)
    with a show False by simp
  qed
  with True show ?thesis by (simp add: submit_block_accepts)
qed

lemma submit_block_mined_times:
  assumes "mined_times m" and "1 \<le> time_since_last b"
  shows "mined_times (snd (submit_block m b mid))"
  using assms by (simp add: mined_times_def submit_block_blocks)

lemma mine_block_mined_times:
  assumes "mined_times m"
  shows "mined_times (snd (mine_block digest m i variance))"
proof -
  let ?mid = "m_miner_id (miners m ! i)"
  let ?t = "calculate_expected_mining_time m variance"
  let ?c = "create_block digest m ?mid (simulated_time m) ?t"
  have t: "1 \<le> time_since_last (fst ?c)"
    by (simp add: create_block_fields expected_mining_time_ge_1)
  have m1: "mined_times (snd ?c)"
    using assms by (simp add: mined_times_def create_block_fields)
  have "mined_times (snd (submit_block (snd ?c) (fst ?c) ?mid))"
    using m1 t by (rule submit_block_mined_times)
  then show ?thesis
    by (auto simp: mine_block_def Let_def mined_times_def
        split: prod.splits outcome.splits bool.splits)
qed

lemma mine_block_submission_returns:
  assumes "mined_times m"
  shows "\<exists>r. fst (submit_block
        (snd (create_block digest m mid (simulated_time m)
               (calculate_expected_mining_time m variance)))
        (fst (create_block digest m mid (simulated_time m)
               (calculate_expected_mining_time m variance))) mid) = Returned r"
proof -
  let ?c = "create_block digest m mid (simulated_time m)
               (calculate_expected_mining_time m variance)"
  have "mined_times (snd ?c)"
    using assms by (simp add: mined_times_def create_block_fields)
  moreover have "1 \<le> time_since_last (fst ?c)"
    by (simp add: create_block_fields expected_mining_time_ge_1)
  ultimately show ?thesis by (simp add: submit_block_returns)
qed

lemma init_mined_times: "mined_times (MiningManager_init cfg st)"
  by (simp add: mined_times_def MiningManager_init_def)

lemma mine_all_mined_times:
  "mined_times m \<Longrightarrow> mined_times (mine_all digest m xs)"
  by (induction xs arbitrary: m) (simp_all add: mine_block_mined_times)

lemma mined_engine_times: "mined_times (mine_all digest (MiningManager_init cfg st) xs)"
  by (rule mine_all_mined_times) (rule init_mined_times)

lemma submit_block_last:
  assumes "validate_block m b"
  shows "last_block_time (snd (submit_block m b mid)) = timestamp b"
    and "last_block_hash (snd (submit_block m b mid)) = hash b"
proof -
  let ?m2 = "after_append m b mid"
  have "last_block_time (snd (submit_block m b mid)) = timestamp b
      \<and> last_block_hash (snd (submit_block m b mid)) = hash b"
  proof (cases "if adjustment_due ?m2 then adjust_difficulty ?m2 else Inr ?m2")
    case (Inl e)
    with assms show ?thesis by (simp add: submit_block_unfold after_append_fields)
  next
    case (Inr m3)
    have "\<exists>d. m3 = ?m2\<lparr>current_difficulty := d\<rparr>"
    proof (cases "adjustment_due ?m2")
      case True
      with Inr show ?thesis by (simp add: adjust_difficulty_shape)
    next
      case False
      with Inr have "m3 = ?m2\<lparr>current_difficulty := current_difficulty ?m2\<rparr>" by simp
      then show ?thesis by (rule exI)
    qed
    then obtain d where "m3 = ?m2\<lparr>current_difficulty := d\<rparr>" by blast
    then have "last_block_time m3 = timestamp b" and "last_block_hash m3 = hash b"
      by (simp_all add: after_append_fields)
    with assms Inr show ?thesis by (simp add: submit_block_unfold halve_reward_def)
  qed
  then show "last_block_time (snd (submit_block m b mid)) = timestamp b"
    and "last_block_hash (snd (submit_block m b mid)) = hash b" by simp_all
qed

lemma submit_block_halving_blocks:
  "halving_blocks (snd (submit_block m b mid)) = halving_blocks m"
proof (cases "validate_block m b")
  case False
  then show ?thesis by (simp add: submit_block_rejected)
next
  case True
  let ?m2 = "after_append m b mid"
  show ?thesis
  proof (cases "if adjustment_due ?m2 then adjust_difficulty ?m2 else Inr ?m2")
    case (Inl e)
    with True show ?thesis by (simp add: submit_block_unfold after_append_fields)
  next
    case (Inr m3)
    from adjusted_fields(4) [OF Inr] have "halving_blocks m3 = halving_blocks m"
      by (simp add: after_append_fields)
    with True Inr show ?thesis by (simp add: submit_block_unfold halve_reward_fields)
  qed
qed

lemma submit_block_never_false_when_valid:
  "validate_block m b \<Longrightarrow> fst (submit_block m b mid) \<noteq> Returned False"
  by (auto simp: submit_block_unfold split: sum.splits)

lemma engine_2015_mined_times:
  assumes "0 \<le> c_blocksize cfg"
    and "case c_halving cfg of None \<Rightarrow> True | Some h \<Rightarrow> 2015 < h"
    and "1 \<le> t"
  shows "mined_times (engine_2015 cfg t)"
  using assms(3)
  by (simp add: mined_times_def engine_2015_fields(1) [OF assms(1,2)] list_all_iff
      chain_block_fields)

text \<open>
  C3. A block passes validation exactly when its id and hash are present, its id is not
  in the chain and its transaction count does not exceed the block size.
  \<open>submit_block\<close> returns \<open>False\<close> exactly when the block fails validation, and then
  the whole manager (chain, last-block time and hash, mining statistics) is as before.
  A block that passes is appended to the chain once, at its end, and becomes the last
  block; and for the blocks and chains of mining (mining times at least 1) the call
  returns \<open>True\<close>.
\<close>

theorem submit_block_validation:
  "(validate_block m b \<longleftrightarrow>
       block_id b \<noteq> [] \<and> hash b \<noteq> [] \<and> block_id b \<notin> block_id ` set (blocks m)
       \<and> transaction_count b \<le> c_blocksize (the_config m))
   \<and> (submit_block m b mid = (Returned False, m) \<longleftrightarrow> \<not> validate_block m b)
   \<and> (fst (submit_block m b mid) = Returned False \<longleftrightarrow> \<not> validate_block m b)
   \<and> (validate_block m b \<longrightarrow>
         blocks (snd (submit_block m b mid)) = blocks m @ [b]
       \<and> last_block_time (snd (submit_block m b mid)) = timestamp b
       \<and> last_block_hash (snd (submit_block m b mid)) = hash b)
   \<and> (mined_times m \<and> 1 \<le> time_since_last b \<and> validate_block m b \<longrightarrow>
         fst (submit_block m b mid) = Returned True)"
proof -
  have 1: "validate_block m b \<longleftrightarrow>
       block_id b \<noteq> [] \<and> hash b \<noteq> [] \<and> block_id b \<notin> block_id ` set (blocks m)
       \<and> transaction_count b \<le> c_blocksize (the_config m)"
    by (rule validate_block_iff)
  have 3: "fst (submit_block m b mid) = Returned False \<longleftrightarrow> \<not> validate_block m b"
    using submit_block_never_false_when_valid [of m b mid] submit_block_rejected [of m b mid]
    by auto
  have 2: "submit_block m b mid = (Returned False, m) \<longleftrightarrow> \<not> validate_block m b"
    using 3 submit_block_rejected [of m b mid] by (metis fst_conv)
  have 4: "validate_block m b \<longrightarrow>
         blocks (snd (submit_block m b mid)) = blocks m @ [b]
       \<and> last_block_time (snd (submit_block m b mid)) = timestamp b
       \<and> last_block_hash (snd (submit_block m b mid)) = hash b"
    by (simp add: submit_block_blocks submit_block_last)
  have 5: "mined_times m \<and> 1 \<le> time_since_last b \<and> validate_block m b \<longrightarrow>
         fst (submit_block m b mid) = Returned True"
    by (simp add: submit_block_returns)
  from 1 2 3 4 5 show ?thesis by (intro conjI)
qed

theorem submit_block_validation_witness:
  "fst (submit_block (engine_2015 cfg_default 600) (chain_block 600 2015) ''miner_0'')
       = Returned True
   \<and> blocks (snd (submit_block (engine_2015 cfg_default 600) (chain_block 600 2015) ''miner_0''))
       = blocks (engine_2015 cfg_default 600) @ [chain_block 600 2015]
   \<and> submit_block (engine_2015 cfg_default 600) (chain_block 600 0) ''miner_0''
       = (Returned False, engine_2015 cfg_default 600)"
proof -
  let ?M = "engine_2015 cfg_default 600"
  have a: "0 \<le> c_blocksize cfg_default"
    and h: "case c_halving cfg_default of None \<Rightarrow> True | Some h \<Rightarrow> 2015 < h"
    by (simp_all add: cfg_default_fields)
  have mt: "mined_times ?M" using a h by (rule engine_2015_mined_times) simp
  have t: "1 \<le> time_since_last (chain_block 600 2015)" by (simp add: chain_block_fields)
  have v: "validate_block ?M (chain_block 600 2015)" using a h by (rule engine_2016_step(1))
  have "block_id (chain_block 600 0) \<in> block_id ` set (blocks ?M)"
    by (simp add: engine_2015_fields(1) [OF a h])
  then have nv: "\<not> validate_block ?M (chain_block 600 0)"
    by (simp add: validate_block_iff)
  from submit_block_validation [of ?M "chain_block 600 2015" "''miner_0''"] mt t v
  have "fst (submit_block ?M (chain_block 600 2015) ''miner_0'') = Returned True"
    and "blocks (snd (submit_block ?M (chain_block 600 2015) ''miner_0''))
       = blocks ?M @ [chain_block 600 2015]"
    by simp_all
  moreover from submit_block_validation [of ?M "chain_block 600 0" "''miner_0''"] nv
  have "submit_block ?M (chain_block 600 0) ''miner_0'' = (Returned False, ?M)"
    by simp
  ultimately show ?thesis by simp
qed

text \<open>
  C4. For the blocks and chains of mining, a valid submission returns \<open>True\<close>, makes
  the chain one longer, and halves the reward exactly when a halving interval is
  configured (neither \<open>None\<close> nor 0) and the new chain length is a multiple of it;
  otherwise the reward is unchanged. In particular reward 50 becomes 25 when the
  210000th block is appended under an interval of 210000. A rejected submission leaves
  the reward alone, no submission changes the interval, and with no interval no
  submission of any block changes the reward.
\<close>

theorem reward_halving_schedule:
  "(mined_times m \<and> 1 \<le> time_since_last b \<and> validate_block m b \<longrightarrow>
       fst (submit_block m b mid) = Returned True
     \<and> length (blocks (snd (submit_block m b mid))) = length (blocks m) + 1
     \<and> block_reward (snd (submit_block m b mid)) =
         (case halving_blocks m of
            None \<Rightarrow> block_reward m
          | Some h \<Rightarrow>
              if h \<noteq> 0 \<and> int (length (blocks m) + 1) mod h = 0
              then block_reward m / 2 else block_reward m))
   \<and> (\<not> validate_block m b \<longrightarrow> block_reward (snd (submit_block m b mid)) = block_reward m)
   \<and> (halving_blocks m = None \<longrightarrow>
         block_reward (snd (submit_block m b mid)) = block_reward m)
   \<and> halving_blocks (snd (submit_block m b mid)) = halving_blocks m
   \<and> (mined_times m \<and> 1 \<le> time_since_last b \<and> validate_block m b
        \<and> halving_blocks m = Some 210000 \<and> length (blocks m) = 209999 \<and> block_reward m = 50
        \<longrightarrow> block_reward (snd (submit_block m b mid)) = 25)"
proof -
  let ?m' = "snd (submit_block m b mid)"
  have main: "fst (submit_block m b mid) = Returned True
     \<and> length (blocks ?m') = length (blocks m) + 1
     \<and> block_reward ?m' =
         (case halving_blocks m of
            None \<Rightarrow> block_reward m
          | Some h \<Rightarrow>
              if h \<noteq> 0 \<and> int (length (blocks m) + 1) mod h = 0
              then block_reward m / 2 else block_reward m)"
    if mt: "mined_times m" and t: "1 \<le> time_since_last b" and v: "validate_block m b"
  proof -
    have r: "fst (submit_block m b mid) = Returned True"
      using mt t v by (simp add: submit_block_returns)
    then have eq: "submit_block m b mid = (Returned True, ?m')"
      by (metis prod.collapse)
    have b': "blocks ?m' = blocks m @ [b]" using v by (simp add: submit_block_blocks)
    have h': "halving_blocks ?m' = halving_blocks m" by (rule submit_block_halving_blocks)
    have hd: "halving_due ?m' \<longleftrightarrow>
        (case halving_blocks m of None \<Rightarrow> False
         | Some h \<Rightarrow> h \<noteq> 0 \<and> int (length (blocks m) + 1) mod h = 0)"
      by (simp add: halving_due_def b' h' split: option.splits)
    from submit_block_reward [OF eq] hd
    have "block_reward ?m' =
         (case halving_blocks m of
            None \<Rightarrow> block_reward m
          | Some h \<Rightarrow>
              if h \<noteq> 0 \<and> int (length (blocks m) + 1) mod h = 0
              then block_reward m / 2 else block_reward m)"
      by (simp split: option.splits)
    with r b' show ?thesis by simp
  qed
  have rej: "\<not> validate_block m b \<longrightarrow> block_reward ?m' = block_reward m"
    by (simp add: submit_block_rejected)
  have unset: "halving_blocks m = None \<longrightarrow> block_reward ?m' = block_reward m"
    by (simp add: submit_block_reward_unset)
  have hb: "halving_blocks ?m' = halving_blocks m" by (rule submit_block_halving_blocks)
  have ex: "mined_times m \<and> 1 \<le> time_since_last b \<and> validate_block m b
        \<and> halving_blocks m = Some 210000 \<and> length (blocks m) = 209999 \<and> block_reward m = 50
        \<longrightarrow> block_reward ?m' = 25"
    using main by auto
  from main rej unset hb ex show ?thesis by blast
qed

theorem reward_halving_schedule_witness:
  "block_reward (engine_2015 cfg_halving_2016 600) = 50
   \<and> length (blocks (snd (submit_block (engine_2015 cfg_halving_2016 600)
        (chain_block 600 2015) ''miner_0''))) = 2016
   \<and> block_reward (snd (submit_block (engine_2015 cfg_halving_2016 600)
        (chain_block 600 2015) ''miner_0'')) = 25
   \<and> block_reward (snd (submit_block (engine_2015 cfg_default 600)
        (chain_block 600 2015) ''miner_0'')) = 50"
proof -
  let ?M = "engine_2015 cfg_halving_2016 600" and ?N = "engine_2015 cfg_default 600"
  let ?B = "chain_block 600 2015"
  have a: "0 \<le> c_blocksize cfg_halving_2016"
    and h: "case c_halving cfg_halving_2016 of None \<Rightarrow> True | Some h \<Rightarrow> 2015 < h"
    by (simp_all add: cfg_halving_2016_fields)
  have a': "0 \<le> c_blocksize cfg_default"
    and h': "case c_halving cfg_default of None \<Rightarrow> True | Some h \<Rightarrow> 2015 < h"
    by (simp_all add: cfg_default_fields)
  note f = engine_2015_fields [OF a h, of 600]
  note g = engine_2015_fields [OF a' h', of 600]
  have mt: "mined_times ?M" using a h by (rule engine_2015_mined_times) simp
  have nt: "mined_times ?N" using a' h' by (rule engine_2015_mined_times) simp
  have t: "1 \<le> time_since_last ?B" by (simp add: chain_block_fields)
  have v: "validate_block ?M ?B" using a h by (rule engine_2016_step(1))
  have w: "validate_block ?N ?B" using a' h' by (rule engine_2016_step(1))
  from reward_halving_schedule [of ?M ?B "''miner_0''"] mt t v
  have "length (blocks (snd (submit_block ?M ?B ''miner_0''))) = 2016"
    and "block_reward (snd (submit_block ?M ?B ''miner_0'')) = 25"
    by (simp_all add: f cfg_halving_2016_fields)
  moreover from reward_halving_schedule [of ?N ?B "''miner_0''"] nt t w
  have "block_reward (snd (submit_block ?N ?B ''miner_0'')) = 50"
    by (simp add: g cfg_default_fields)
  moreover have "block_reward ?M = 50" by (simp add: f cfg_halving_2016_fields)
  ultimately show ?thesis by simp
qed

text \<open>
  Why the mining times enter. On a chain of 2016 blocks that all record the mining time
  0, which no caller in the repository builds, the window mean is 0 and the division
  in the difficulty adjustment raises after the block is appended and before the
  halving is looked at.
\<close>

lemma submit_block_raises_on_zero_mean:
  "validate_block (engine_2015 cfg_default 0) (chain_block 0 2015)
   \<and> fst (submit_block (engine_2015 cfg_default 0) (chain_block 0 2015) ''miner_0'')
       = Raised ZeroDivisionError
   \<and> blocks (snd (submit_block (engine_2015 cfg_default 0) (chain_block 0 2015) ''miner_0''))
       = blocks (engine_2015 cfg_default 0) @ [chain_block 0 2015]"
proof -
  have a: "0 \<le> c_blocksize cfg_default"
    and h: "case c_halving cfg_default of None \<Rightarrow> True | Some h \<Rightarrow> 2015 < h"
    by (simp_all add: cfg_default_fields)
  note st = engine_2016_step [OF a h]
  have "submit_block (engine_2015 cfg_default 0) (chain_block 0 2015) ''miner_0''
      = (Raised ZeroDivisionError,
         after_append (engine_2015 cfg_default 0) (chain_block 0 2015) ''miner_0'')"
    using st(1) st(3) st(4) by (rule submit_block_raises)
  with st(1) show ?thesis by (simp add: after_append_fields)
qed

lemma halving_skipped_on_zero_mean:
  "halving_blocks (engine_2015 cfg_halving_2016 0) = Some 2016
   \<and> block_reward (engine_2015 cfg_halving_2016 0) = 50
   \<and> validate_block (engine_2015 cfg_halving_2016 0) (chain_block 0 2015)
   \<and> length (blocks (snd (submit_block (engine_2015 cfg_halving_2016 0) (chain_block 0 2015)
        ''miner_0''))) = 2016
   \<and> block_reward (snd (submit_block (engine_2015 cfg_halving_2016 0) (chain_block 0 2015)
        ''miner_0'')) = 50
   \<and> fst (submit_block (engine_2015 cfg_halving_2016 0) (chain_block 0 2015) ''miner_0'')
       = Raised ZeroDivisionError"
proof -
  have a: "0 \<le> c_blocksize cfg_halving_2016"
    and h: "case c_halving cfg_halving_2016 of None \<Rightarrow> True | Some h \<Rightarrow> 2015 < h"
    by (simp_all add: cfg_halving_2016_fields)
  note f = engine_2015_fields [OF a h, of 0]
  note st = engine_2016_step [OF a h]
  have "submit_block (engine_2015 cfg_halving_2016 0) (chain_block 0 2015) ''miner_0''
      = (Raised ZeroDivisionError,
         after_append (engine_2015 cfg_halving_2016 0) (chain_block 0 2015) ''miner_0'')"
    using st(1) st(3) st(4) by (rule submit_block_raises)
  with st(1) show ?thesis
    by (simp add: after_append_fields f cfg_halving_2016_fields)
qed

text \<open>
  C2, as the code has it. Take a configuration with a positive baseline
  \<open>blocktime * miners * hashrate\<close>, any engine \<open>m0\<close> of that configuration and any
  run of submissions \<open>xs\<close> from it. When a further submission returns \<open>True\<close> and
  makes the chain length a positive multiple of 2016, the difficulty after it lies
  between 0.1 and 5 times the baseline. When moreover the difficulty of \<open>m0\<close> was
  inside that band (as the default initial difficulty, the baseline itself, is), the
  difficulty after the adjustment is between 0.67 and 1.5 times the difficulty before
  it, hence their ratio between 1/1.5 and 1.5.
\<close>

theorem difficulty_adjustment_bounds:
  assumes "0 < base_difficulty (the_config m0)"
    and "submit_block (submit_all m0 xs) b mid = (Returned True, m')"
    and "adjustment_due m'"
  shows "base_difficulty (the_config m0) * 0.1 \<le> current_difficulty m'
       \<and> current_difficulty m' \<le> base_difficulty (the_config m0) * 5
       \<and> (in_band (the_config m0) (current_difficulty m0) \<longrightarrow>
            0.67 * current_difficulty (submit_all m0 xs) \<le> current_difficulty m'
          \<and> current_difficulty m' \<le> 1.5 * current_difficulty (submit_all m0 xs)
          \<and> 1 / 1.5 \<le> current_difficulty m' / current_difficulty (submit_all m0 xs)
          \<and> current_difficulty m' / current_difficulty (submit_all m0 xs) \<le> 1.5)"
proof -
  let ?m = "submit_all m0 xs"
  let ?m2 = "after_append ?m b mid"
  have cfg: "the_config ?m2 = the_config m0"
    by (simp add: after_append_fields submit_all_config)
  from assms(2) obtain m3 where
    adj: "(if adjustment_due ?m2 then adjust_difficulty ?m2 else Inr ?m2) = Inr m3"
    and m': "m' = (if halving_due m3 then halve_reward m3 else m3)"
    by (rule submit_block_TrueE)
  have d': "current_difficulty m' = current_difficulty m3"
    and b': "blocks m' = blocks ?m2"
    using m' adjusted_fields(1) [OF adj] by (simp_all add: halve_reward_fields)
  from assms(3) b' have due: "adjustment_due ?m2" by (simp add: adjustment_due_def)
  with adj have adj': "adjust_difficulty ?m2 = Inr m3" by simp
  have len: "DIFFICULTY_ADJUSTMENT_BLOCKS \<le> length (blocks ?m2)"
    using due by (rule adjustment_due_length)
  have "in_band (the_config ?m2) (current_difficulty m3)"
    using assms(1) len adj' by (intro adjust_band) (simp_all add: cfg)
  then have band: "base_difficulty (the_config m0) * 0.1 \<le> current_difficulty m'
       \<and> current_difficulty m' \<le> base_difficulty (the_config m0) * 5"
    by (simp add: in_band_def cfg d')
  have ratio: "0.67 * current_difficulty ?m \<le> current_difficulty m'
          \<and> current_difficulty m' \<le> 1.5 * current_difficulty ?m
          \<and> 1 / 1.5 \<le> current_difficulty m' / current_difficulty ?m
          \<and> current_difficulty m' / current_difficulty ?m \<le> 1.5"
    if ib: "in_band (the_config m0) (current_difficulty m0)"
  proof -
    have "in_band (the_config m0) (current_difficulty ?m)"
      using assms(1) ib by (intro submit_all_keeps_band) simp_all
    then have ib2: "in_band (the_config ?m2) (current_difficulty ?m2)"
      by (simp add: after_append_fields submit_all_config)
    have B: "0 < base_difficulty (the_config ?m2)" using assms(1) by (simp add: cfg)
    from adjust_ratio [OF B ib2 len adj']
    have r: "0.67 * current_difficulty ?m \<le> current_difficulty m'"
      "current_difficulty m' \<le> 1.5 * current_difficulty ?m"
      by (simp_all add: after_append_fields d')
    from ib2 B have pos: "0 < current_difficulty ?m"
      by (simp add: in_band_def after_append_fields)
    from r pos have "0.67 \<le> current_difficulty m' / current_difficulty ?m"
      "current_difficulty m' / current_difficulty ?m \<le> 1.5"
      by (simp_all add: pos_le_divide_eq pos_divide_le_eq)
    with r show ?thesis by simp
  qed
  from band ratio show ?thesis by blast
qed

theorem difficulty_adjustment_bounds_witness:
  "in_band cfg_default (current_difficulty (MiningManager_init cfg_default mining_stats_0))
   \<and> base_difficulty cfg_default * 0.1
       \<le> current_difficulty (snd (submit_block (engine_2015 cfg_default 300)
            (chain_block 300 2015) ''miner_0''))
   \<and> current_difficulty (snd (submit_block (engine_2015 cfg_default 300)
            (chain_block 300 2015) ''miner_0''))
       \<le> base_difficulty cfg_default * 5
   \<and> current_difficulty (snd (submit_block (engine_2015 cfg_default 300)
            (chain_block 300 2015) ''miner_0''))
       \<le> 1.5 * current_difficulty (engine_2015 cfg_default 300)
   \<and> 1 / 1.5 \<le> current_difficulty (snd (submit_block (engine_2015 cfg_default 300)
            (chain_block 300 2015) ''miner_0''))
         / current_difficulty (engine_2015 cfg_default 300)"
proof -
  let ?m0 = "MiningManager_init cfg_default mining_stats_0"
  let ?B = "chain_block 300 2015"
  let ?r = "submit_block (engine_2015 cfg_default 300) ?B ''miner_0''"
  have c0: "the_config ?m0 = cfg_default" by (simp add: MiningManager_init_def)
  have pos: "0 < base_difficulty (the_config ?m0)"
    by (simp add: c0 cfg_default_fields)
  have ib: "in_band (the_config ?m0) (current_difficulty ?m0)"
    by (simp add: c0 in_band_def cfg_default_fields MiningManager_init_def)
  have e: "submit_all ?m0 (chain 300 2015) = engine_2015 cfg_default 300"
    by (simp add: engine_2015_def)
  have "fst ?r = Returned True"
    by (rule engine_2016_adjusted(1)) (simp_all add: cfg_default_fields)
  then have ret: "submit_block (submit_all ?m0 (chain 300 2015)) ?B ''miner_0''
      = (Returned True, snd ?r)"
    unfolding e by (metis prod.collapse)
  have "blocks (snd ?r) = map (chain_block 300) [0..<2016]"
    by (rule engine_2016_adjusted(2)) (simp_all add: cfg_default_fields)
  then have due: "adjustment_due (snd ?r)"
    by (simp add: adjustment_due_def DIFFICULTY_ADJUSTMENT_BLOCKS_def)
  from difficulty_adjustment_bounds [OF pos ret due] ib
  show ?thesis by (simp add: c0 e)
qed

text \<open>
  C2 as stated fails at the first adjustment of an engine started with a custom
  difficulty outside the band. Started at 300000000 with baseline 3000000, after 2015
  blocks mined in 600 seconds each, the 2016th submission returns \<open>True\<close>, triggers the
  adjustment with multiplier 1, and the clamp to five times the baseline takes the
  difficulty to 15000000: a ratio of 0.05, below 1/1.5.
\<close>

theorem difficulty_ratio_custom_start:
  "fst (submit_block (engine_2015 cfg_custom_difficulty 600) (chain_block 600 2015) ''miner_0'')
       = Returned True
   \<and> adjustment_due (snd (submit_block (engine_2015 cfg_custom_difficulty 600)
        (chain_block 600 2015) ''miner_0''))
   \<and> current_difficulty (engine_2015 cfg_custom_difficulty 600) = 300000000
   \<and> current_difficulty (snd (submit_block (engine_2015 cfg_custom_difficulty 600)
        (chain_block 600 2015) ''miner_0'')) = 15000000
   \<and> current_difficulty (snd (submit_block (engine_2015 cfg_custom_difficulty 600)
        (chain_block 600 2015) ''miner_0''))
       / current_difficulty (engine_2015 cfg_custom_difficulty 600) < 1 / 1.5"
proof -
  let ?M = "engine_2015 cfg_custom_difficulty 600"
  let ?r = "submit_block ?M (chain_block 600 2015) ''miner_0''"
  have a: "0 \<le> c_blocksize cfg_custom_difficulty"
    and h: "case c_halving cfg_custom_difficulty of None \<Rightarrow> True | Some h \<Rightarrow> 2015 < h"
    and t: "(600::real) \<noteq> 0"
    by (simp_all add: cfg_custom_difficulty_fields)
  have 1: "fst ?r = Returned True" using a h t by (rule engine_2016_adjusted(1))
  have "blocks (snd ?r) = map (chain_block 600) [0..<2016]"
    using a h t by (rule engine_2016_adjusted(2))
  then have 2: "adjustment_due (snd ?r)"
    by (simp add: adjustment_due_def DIFFICULTY_ADJUSTMENT_BLOCKS_def)
  have 3: "current_difficulty ?M = 300000000"
    using engine_2015_fields(2) [OF a h, of 600] by (simp add: cfg_custom_difficulty_fields)
  have 4: "current_difficulty (snd ?r) = 15000000"
    using engine_2016_adjusted(3) [OF a h t, of "''miner_0''"]
    by (simp add: cfg_custom_difficulty_fields)
  from 1 2 3 4 show ?thesis by simp
qed

end
